theory Spec2Isabelle
  imports
    Main
    "HOL-Library.Char_ord"
    "HOL-Library.List_Lexorder"
    "HOL-Library.Product_Lexorder"
    "HOL-Library.Multiset"
    "HOL-Library.Signed_Division"
begin

section \<open>Data model\<close>

text \<open>
  The development follows \<^verbatim>\<open>fstat.go\<close>, version 2.6.11. \<^verbatim>\<open>FileStat\<close> is the metadata of
  one entry: \<^verbatim>\<open>Size\<close> is Go's \<^verbatim>\<open>int64\<close>, \<^verbatim>\<open>ModTime\<close> a \<^verbatim>\<open>time.Time\<close>, kept as the instant
  it denotes (nanoseconds since the Unix epoch; \<^verbatim>\<open>After\<close> and \<^verbatim>\<open>Before\<close> compare instants),
  \<^verbatim>\<open>FileType\<close> one of the strings F, D, L and ?. Go strings are byte strings and \<^verbatim>\<open><\<close> on
  them is the lexicographic order on bytes, which is the order of \<^typ>\<open>string\<close> here.
\<close>

record FileStat =
  FullName :: string
  Size :: int
  ModTime :: int
  FileType :: string

text \<open>What \<^verbatim>\<open>os.Lstat\<close> reports for a path: the part of \<^verbatim>\<open>os.FileInfo\<close> the program reads.
  \<^verbatim>\<open>fi_IsSymlink\<close> stands for \<^verbatim>\<open>f.Mode()&os.ModeSymlink == os.ModeSymlink\<close>.\<close>

record FileInfo =
  fi_Size :: int
  fi_ModTime :: int
  fi_IsRegular :: bool
  fi_IsDir :: bool
  fi_IsSymlink :: bool

text \<open>
  The host: the operating system and the libraries the program calls, none of which is part
  of \<^verbatim>\<open>fstat.go\<close>. A failing call returns its error text in \<^const>\<open>Inl\<close>.
  \<^item> \<^verbatim>\<open>time_Local\<close> is the offset of \<^verbatim>\<open>time.Local\<close> east of UTC in seconds (a fixed-offset zone);
  \<^item> \<^verbatim>\<open>time_String\<close> is \<^verbatim>\<open>fmt.Sprintf("%s", t)\<close> for a \<^verbatim>\<open>time.Time\<close>;
  \<^item> \<^verbatim>\<open>time_Parse_error\<close> is the error of \<^verbatim>\<open>time.Parse("2006-01-02 15:04:05", s)\<close>, if any;
  \<^item> \<^verbatim>\<open>regexp_Compile\<close> returns the compiled expression as its \<^verbatim>\<open>Match\<close> predicate;
  \<^item> \<^verbatim>\<open>RenderInteger\<close> and \<^verbatim>\<open>RenderFloat\<close> are the functions of \<^verbatim>\<open>render_number.go\<close>;
    a \<^verbatim>\<open>float64\<close> argument is given by its value, which is an integer wherever they are called;
  \<^item> \<^verbatim>\<open>tablewriter_Render\<close> is what a table with the given header and rows prints;
  \<^item> \<^verbatim>\<open>json_String\<close> is the JSON encoding of one string, quotes included.
\<close>

record host =
  os_Lstat :: "string \<Rightarrow> string + FileInfo"
  os_PathSeparator :: char
  os_Stdin :: "string list"
  os_Open :: "string \<Rightarrow> string + string list"
  filepath_Glob :: "string \<Rightarrow> string + string list"
  regexp_Compile :: "string \<Rightarrow> (string \<Rightarrow> bool) option"
  strings_ToLower :: "string \<Rightarrow> string"
  strings_Fields :: "string \<Rightarrow> string list"
  time_Local :: int
  time_String :: "int \<Rightarrow> string"
  time_Parse_error :: "string \<Rightarrow> string option"
  RenderInteger :: "string \<Rightarrow> int \<Rightarrow> string"
  RenderFloat :: "string \<Rightarrow> int \<Rightarrow> string"
  ellipsis_Shorten :: "string \<Rightarrow> int \<Rightarrow> string"
  termsize_Width :: int
  tablewriter_Render :: "string list \<Rightarrow> string list list \<Rightarrow> string"
  json_String :: "string \<Rightarrow> string"

definition newline :: string where
  "newline = [CHR 0x0A]"

definition version :: string where
  "version = ''2.6.11''"

definition minTermWidth :: int where
  "minTermWidth = 49"

definition wantOlder :: nat where
  "wantOlder = 0"

definition wantNewer :: nat where
  "wantNewer = 1"

section \<open>Calendar dates and instants\<close>

text \<open>The proleptic Gregorian calendar of package \<^verbatim>\<open>time\<close>: the day number of a civil date
  (days since 1970-01-01) and back.\<close>

definition days_from_civil :: "int \<Rightarrow> int \<Rightarrow> int \<Rightarrow> int" where
  "days_from_civil y m d =
     (let y' = (if m \<le> 2 then y - 1 else y);
          era = y' div 400;
          yoe = y' - era * 400;
          doy = (153 * (if m > 2 then m - 3 else m + 9) + 2) div 5 + d - 1;
          doe = yoe * 365 + yoe div 4 - yoe div 100 + doy
      in era * 146097 + doe - 719468)"

definition civil_from_days :: "int \<Rightarrow> int \<times> int \<times> int" where
  "civil_from_days z =
     (let z' = z + 719468;
          era = z' div 146097;
          doe = z' - era * 146097;
          yoe = (doe - doe div 1460 + doe div 36524 - doe div 146096) div 365;
          doy = doe - (365 * yoe + yoe div 4 - yoe div 100);
          mp = (5 * doy + 2) div 153;
          d = doy - (153 * mp + 2) div 5 + 1;
          m = (if mp < 10 then mp + 3 else mp - 9)
      in ((if m \<le> 2 then yoe + era * 400 + 1 else yoe + era * 400), m, d))"

definition Second :: int where
  "Second = 1000000000"

definition Hour :: int where
  "Hour = 3600 * Second"

text \<open>\<^verbatim>\<open>time.Date(year, month, day, hour, min, sec, nsec, loc)\<close> for in-range fields, in the
  zone \<open>loc\<close> seconds east of UTC.\<close>

definition Date :: "int \<Rightarrow> int \<Rightarrow> int \<Rightarrow> int \<Rightarrow> int \<Rightarrow> int \<Rightarrow> int \<Rightarrow> int \<Rightarrow> int" where
  "Date year month day hour minute sec nsec loc =
     (days_from_civil year month day * 86400 + hour * 3600 + minute * 60 + sec - loc) * Second + nsec"

text \<open>\<^verbatim>\<open>t.Year()\<close>, \<^verbatim>\<open>t.Month()\<close> and \<^verbatim>\<open>t.Day()\<close> of the instant \<open>t\<close> read in the zone \<open>loc\<close>.\<close>

definition YearMonthDay :: "int \<Rightarrow> int \<Rightarrow> int \<times> int \<times> int" where
  "YearMonthDay loc t = civil_from_days ((t div Second + loc) div 86400)"

definition isLeap :: "int \<Rightarrow> bool" where
  "isLeap year \<longleftrightarrow> year mod 4 = 0 \<and> (year mod 100 \<noteq> 0 \<or> year mod 400 = 0)"

definition daysIn :: "int \<Rightarrow> int \<Rightarrow> int" where
  "daysIn m year =
     (if m = 2 then (if isLeap year then 29 else 28)
      else if m = 4 \<or> m = 6 \<or> m = 9 \<or> m = 11 then 30 else 31)"

definition isDigit :: "char \<Rightarrow> bool" where
  "isDigit c \<longleftrightarrow> CHR ''0'' \<le> c \<and> c \<le> CHR ''9''"

definition atoi :: "string \<Rightarrow> int" where
  "atoi s = foldl (\<lambda>a c. 10 * a + (of_char c - 48)) 0 s"

text \<open>\<^verbatim>\<open>time.Parse(dateFormat, value)\<close> with \<^verbatim>\<open>dateFormat = "20060102"\<close>: four digits of year, two
  of month, two of day and nothing else; the month must be 1 to 12 and the day must exist in
  that month. The result is midnight UTC of that day; \<^const>\<open>None\<close> is the parse error.\<close>

definition time_Parse_dateFormat :: "string \<Rightarrow> int option" where
  "time_Parse_dateFormat v =
     (if length v = 8 \<and> list_all isDigit v then
        (let year = atoi (take 4 v); month = atoi (take 2 (drop 4 v)); day = atoi (drop 6 v)
         in if month < 1 \<or> 12 < month then None
            else if day < 1 \<or> daysIn month year < day then None
            else Some (Date year month day 0 0 0 0 0))
      else None)"

text \<open>\<^verbatim>\<open>roundToLocalTime\<close>: on a parse error two lines go to standard error and the process
  exits with status 5 (\<^const>\<open>Inl\<close> carries the text and the status). Otherwise the parsed
  instant is read in the local zone, its day is completed to 23:59:59.999999999 local time,
  and for \<^const>\<open>wantOlder\<close> 24 hours are added. The local zone is one fixed offset: a zone
  whose offset changes between the parsed instant and the end of that day (daylight
  saving) is not covered.\<close>

definition roundToLocalTime :: "host \<Rightarrow> nat \<Rightarrow> string \<Rightarrow> (string \<times> nat) + int" where
  "roundToLocalTime h olderOrNewer modTime =
     (case time_Parse_dateFormat modTime of
        None \<Rightarrow>
          Inl (''Error when parsing date: '' @ modTime @ newline
                 @ ''Date format should be  : YYYYMMDD'' @ newline, 5)
      | Some parsed \<Rightarrow>
          (let (y, m, d) = YearMonthDay (time_Local h) parsed;
               roundedModTime = Date y m d 23 59 59 999999999 (time_Local h)
           in Inr (if olderOrNewer = wantOlder then roundedModTime + Hour * 24
                   else roundedModTime)))"

section \<open>Collecting and filtering entries\<close>

text \<open>\<^verbatim>\<open>path.Base\<close>: the last element of a slash-separated path, trailing slashes removed.\<close>

definition path_Base :: "string \<Rightarrow> string" where
  "path_Base p =
     (if p = [] then ''.''
      else (let stripped = rev (dropWhile (\<lambda>c. c = CHR ''/'') (rev p));
                base = rev (takeWhile (\<lambda>c. c \<noteq> CHR ''/'') (rev stripped))
            in if base = [] then ''/'' else base))"

fun strings_Contains :: "string \<Rightarrow> string \<Rightarrow> bool" where
  "strings_Contains [] substr = (substr = [])"
| "strings_Contains (c # cs) substr =
     (take (length substr) (c # cs) = substr \<or> strings_Contains cs substr)"

definition fileTypeOf :: "FileInfo \<Rightarrow> string" where
  "fileTypeOf f =
     (if fi_IsRegular f then ''F''
      else if fi_IsDir f then ''D''
      else if fi_IsSymlink f then ''L''
      else ''?'')"

text \<open>The body of the loop of \<^verbatim>\<open>GetFileInfo\<close>, for one file name. The state is the text
  written to standard error so far and \<^verbatim>\<open>allEntries\<close>; each \<^verbatim>\<open>continue\<close> of the source leaves
  \<^verbatim>\<open>allEntries\<close> as it is. A compiled expression that is in use is \<^const>\<open>Some\<close> of its matcher
  (\<^verbatim>\<open>shouldExcludeRE\<close>, \<^verbatim>\<open>shouldIncludeRE\<close>), a date bound in use \<^const>\<open>Some\<close> of its instant
  (\<^verbatim>\<open>useOlder\<close>, \<^verbatim>\<open>useNewer\<close>).\<close>

definition GetFileInfo_body ::
  "host \<Rightarrow> bool \<Rightarrow> bool \<Rightarrow> (string \<Rightarrow> bool) option \<Rightarrow> (string \<Rightarrow> bool) option \<Rightarrow>
   int option \<Rightarrow> int option \<Rightarrow> int \<Rightarrow> int \<Rightarrow> string \<Rightarrow> string \<times> FileStat list \<Rightarrow>
   string \<times> FileStat list" where
  "GetFileInfo_body h quiet excludeDot excludeMatched includeMatched newerModTime olderModTime
     sizeSmaller sizeLarger fname st =
     (let errs = fst st; allEntries = snd st
      in if excludeDot \<and> (''.'' = take 1 (path_Base fname)
             \<or> strings_Contains fname [os_PathSeparator h, CHR ''.''])
         then (errs, allEntries)
         else if (case excludeMatched of Some matches \<Rightarrow> matches fname | None \<Rightarrow> False)
         then (errs, allEntries)
         else if (case includeMatched of Some matches \<Rightarrow> \<not> matches fname | None \<Rightarrow> False)
         then (errs, allEntries)
         else
           (case os_Lstat h fname of
              Inl e \<Rightarrow>
                (if \<not> quiet then (errs @ ''Error: '' @ e @ newline, allEntries)
                 else (errs, allEntries))
            | Inr f \<Rightarrow>
                if (case olderModTime of Some t \<Rightarrow> fi_ModTime f > t | None \<Rightarrow> False)
                then (errs, allEntries)
                else if (case newerModTime of Some t \<Rightarrow> fi_ModTime f < t | None \<Rightarrow> False)
                then (errs, allEntries)
                else
                  (let ftype = fileTypeOf f
                   in if sizeSmaller > 0 \<and> fi_Size f > sizeSmaller \<and> ''F'' = ftype
                      then (errs, allEntries)
                      else if sizeLarger > 0 \<and> fi_Size f < sizeLarger \<and> ''F'' = ftype
                      then (errs, allEntries)
                      else (errs, allEntries @
                              [\<lparr>FullName = fname, Size = fi_Size f,
                                ModTime = fi_ModTime f, FileType = ftype\<rparr>]))))"

fun GetFileInfo_loop ::
  "host \<Rightarrow> bool \<Rightarrow> bool \<Rightarrow> (string \<Rightarrow> bool) option \<Rightarrow> (string \<Rightarrow> bool) option \<Rightarrow>
   int option \<Rightarrow> int option \<Rightarrow> int \<Rightarrow> int \<Rightarrow> string list \<Rightarrow> string \<times> FileStat list \<Rightarrow>
   string \<times> FileStat list" where
  "GetFileInfo_loop h quiet excludeDot excludeMatched includeMatched newerModTime olderModTime
     sizeSmaller sizeLarger [] st = st"
| "GetFileInfo_loop h quiet excludeDot excludeMatched includeMatched newerModTime olderModTime
     sizeSmaller sizeLarger (fname # rest) st =
     GetFileInfo_loop h quiet excludeDot excludeMatched includeMatched newerModTime olderModTime
       sizeSmaller sizeLarger rest
       (GetFileInfo_body h quiet excludeDot excludeMatched includeMatched newerModTime
          olderModTime sizeSmaller sizeLarger fname st)"

text \<open>\<^verbatim>\<open>GetFileInfo\<close>: the result is the text written to standard error and either the exit
  status of a fatal error or \<^verbatim>\<open>allEntries\<close>. The expressions are compiled first (status 3
  for the exclude expression, 4 for the include expression), then the newer and the older
  date are rounded (status 5), then the names are examined in order.\<close>

definition GetFileInfo ::
  "host \<Rightarrow> string list \<Rightarrow> bool \<Rightarrow> bool \<Rightarrow> string \<Rightarrow> string \<Rightarrow> string \<Rightarrow> string \<Rightarrow> int \<Rightarrow> int \<Rightarrow>
   string \<times> (nat + FileStat list)" where
  "GetFileInfo h allFilenames quiet excludeDot excludeRE includeRE dateNewer dateOlder
     sizeSmaller sizeLarger =
     (if length excludeRE > 0 \<and> regexp_Compile h excludeRE = None then
        (''Invalid 'exclude' regular expression: '' @ excludeRE @ newline, Inl 3)
      else if length includeRE > 0 \<and> regexp_Compile h includeRE = None then
        (''Invalid 'include' regular expression: '' @ includeRE @ newline, Inl 4)
      else
        (case (if length dateNewer > 0
               then map_sum id Some (roundToLocalTime h wantNewer dateNewer)
               else Inr None) of
           Inl (msg, status) \<Rightarrow> (msg, Inl status)
         | Inr newerModTime \<Rightarrow>
             (case (if length dateOlder > 0
                    then map_sum id Some (roundToLocalTime h wantOlder dateOlder)
                    else Inr None) of
                Inl (msg, status) \<Rightarrow> (msg, Inl status)
              | Inr olderModTime \<Rightarrow>
                  (let excludeMatched =
                         (if length excludeRE > 0 then regexp_Compile h excludeRE else None);
                       includeMatched =
                         (if length includeRE > 0 then regexp_Compile h includeRE else None);
                       (errs, allEntries) =
                         GetFileInfo_loop h quiet excludeDot excludeMatched includeMatched
                           newerModTime olderModTime sizeSmaller sizeLarger allFilenames
                           ([], [])
                   in (errs, Inr allEntries)))))"

section \<open>Sorting\<close>

text \<open>
  \<^verbatim>\<open>sort.Slice(entry, less)\<close> rearranges the slice so that no element is \<^verbatim>\<open>less\<close> than one
  before it. Package \<^verbatim>\<open>sort\<close> fixes no more than that: the sort is not stable, so the order
  among elements that \<^verbatim>\<open>less\<close> does not separate is left open. \<open>sort_Slice_result\<close> is this
  contract; \<open>sort_Slice\<close> is one sort that meets it (insertion sort), used to run the model.
\<close>

definition sort_Slice_result :: "('a \<Rightarrow> 'a \<Rightarrow> bool) \<Rightarrow> 'a list \<Rightarrow> 'a list \<Rightarrow> bool" where
  "sort_Slice_result lessFn xs ys \<longleftrightarrow> mset ys = mset xs \<and> sorted_wrt (\<lambda>a b. \<not> lessFn b a) ys"

fun sort_insert :: "('a \<Rightarrow> 'a \<Rightarrow> bool) \<Rightarrow> 'a \<Rightarrow> 'a list \<Rightarrow> 'a list" where
  "sort_insert lessFn x [] = [x]"
| "sort_insert lessFn x (y # ys) = (if lessFn y x then y # sort_insert lessFn x ys else x # y # ys)"

definition sort_Slice :: "('a \<Rightarrow> 'a \<Rightarrow> bool) \<Rightarrow> 'a list \<Rightarrow> 'a list" where
  "sort_Slice lessFn xs = foldr (sort_insert lessFn) xs []"

text \<open>The \<^verbatim>\<open>less\<close> closures of the four sort functions, on the elements at the two indices.\<close>

definition sortSize_less :: "bool \<Rightarrow> FileStat \<Rightarrow> FileStat \<Rightarrow> bool" where
  "sortSize_less ascending a b =
     (if Size a > Size b then \<not> ascending
      else if Size a < Size b then ascending
      else FullName a < FullName b)"

definition sortModTime_less :: "bool \<Rightarrow> FileStat \<Rightarrow> FileStat \<Rightarrow> bool" where
  "sortModTime_less ascending a b =
     (if ModTime a > ModTime b then \<not> ascending
      else if ModTime a < ModTime b then ascending
      else FullName a < FullName b)"

definition sortName_less :: "bool \<Rightarrow> FileStat \<Rightarrow> FileStat \<Rightarrow> bool" where
  "sortName_less ascending a b =
     (if ascending then FullName a < FullName b else FullName a > FullName b)"

definition sortNameCaseInsensitive_less :: "host \<Rightarrow> bool \<Rightarrow> FileStat \<Rightarrow> FileStat \<Rightarrow> bool" where
  "sortNameCaseInsensitive_less h ascending a b =
     (if ascending then strings_ToLower h (FullName a) < strings_ToLower h (FullName b)
      else strings_ToLower h (FullName a) > strings_ToLower h (FullName b))"

definition sortSize :: "FileStat list \<Rightarrow> bool \<Rightarrow> FileStat list" where
  "sortSize entry ascending = sort_Slice (sortSize_less ascending) entry"

definition sortModTime :: "FileStat list \<Rightarrow> bool \<Rightarrow> FileStat list" where
  "sortModTime entry ascending = sort_Slice (sortModTime_less ascending) entry"

definition sortName :: "FileStat list \<Rightarrow> bool \<Rightarrow> FileStat list" where
  "sortName entry ascending = sort_Slice (sortName_less ascending) entry"

definition sortNameCaseInsensitive :: "host \<Rightarrow> FileStat list \<Rightarrow> bool \<Rightarrow> FileStat list" where
  "sortNameCaseInsensitive h entry ascending =
     sort_Slice (sortNameCaseInsensitive_less h ascending) entry"

definition SortAllEntries ::
  "host \<Rightarrow> FileStat list \<Rightarrow> bool \<Rightarrow> bool \<Rightarrow> bool \<Rightarrow> bool \<Rightarrow> bool \<Rightarrow> bool \<Rightarrow> bool \<Rightarrow> bool \<Rightarrow>
   FileStat list" where
  "SortAllEntries h allEntries argsSortSize argsSortSizeDesc argsSortModTime argsSortModTimeDesc
     argsSortName argsSortNameDesc argsSortNameCaseInsen argsSortNameCaseInsenDesc =
     (if argsSortSize then sortSize allEntries True
      else if argsSortSizeDesc then sortSize allEntries False
      else if argsSortModTime then sortModTime allEntries True
      else if argsSortModTimeDesc then sortModTime allEntries False
      else if argsSortName then sortName allEntries True
      else if argsSortNameDesc then sortName allEntries False
      else if argsSortNameCaseInsen then sortNameCaseInsensitive h allEntries True
      else if argsSortNameCaseInsenDesc then sortNameCaseInsensitive h allEntries False
      else allEntries)"

text \<open>The maximal runs of consecutive entries of one size: the tie groups of a sequence that
  is ordered by size.\<close>

function size_groups :: "FileStat list \<Rightarrow> FileStat list list" where
  "size_groups [] = []"
| "size_groups (x # xs) =
     (x # takeWhile (\<lambda>y. Size y = Size x) xs) # size_groups (dropWhile (\<lambda>y. Size y = Size x) xs)"
  by pat_completeness auto
termination
  by (relation "measure length") (auto simp: le_imp_less_Suc length_dropWhile_le)

text \<open>The two fields that \<^const>\<open>sortSize_less\<close> reads.\<close>

definition size_name :: "FileStat \<Rightarrow> int \<times> string" where
  "size_name e = (Size e, FullName e)"

definition neg_size_name :: "FileStat \<Rightarrow> int \<times> string" where
  "neg_size_name e = (- Size e, FullName e)"

section \<open>Numbers and their rendering\<close>

text \<open>Arithmetic on \<^verbatim>\<open>int64\<close> wraps around; \<^verbatim>\<open>/\<close> truncates towards zero, which is
  \<^const>\<open>signed_divide\<close> on \<^typ>\<open>int\<close>.\<close>

definition int64 :: "int \<Rightarrow> int" where
  "int64 n = (n + 2 ^ 63) mod 2 ^ 64 - 2 ^ 63"

text \<open>\<^verbatim>\<open>float64(n)\<close> for an \<^verbatim>\<open>int64\<close>: the nearest number with a 53-bit significand, ties to
  even. The result is again an integer and is kept as one.\<close>

definition float64 :: "int \<Rightarrow> int" where
  "float64 n =
     (let a = \<bar>n\<bar>;
          k = length (takeWhile (\<lambda>k. 2 ^ 53 \<le> a div 2 ^ k) [0..<12]);
          q = a div 2 ^ k;
          r = a mod 2 ^ k;
          q' = (if 2 * r > 2 ^ k \<or> (2 * r = 2 ^ k \<and> odd q) then q + 1 else q)
      in sgn n * (q' * 2 ^ k))"

text \<open>The decimal digits of a number that is not negative.\<close>

function decimal :: "int \<Rightarrow> string" where
  "decimal n =
     (if n < 10 then [char_of (48 + n)] else decimal (n div 10) @ [char_of (48 + n mod 10)])"
  by pat_completeness auto
termination
  by (relation "measure nat") auto

text \<open>\<^verbatim>\<open>fmt.Sprintf("%d", n)\<close>, and \<^verbatim>\<open>fmt.Sprintf("%.0f", x)\<close> for a \<^verbatim>\<open>float64\<close> whose value is
  the integer \<open>x\<close>.\<close>

definition fmt_d :: "int \<Rightarrow> string" where
  "fmt_d n = (if n < 0 then CHR ''-'' # decimal (- n) else decimal n)"

definition fmt_f0 :: "int \<Rightarrow> string" where
  "fmt_f0 x = fmt_d x"

fun strings_Join :: "string list \<Rightarrow> string \<Rightarrow> string" where
  "strings_Join [] sep = []"
| "strings_Join [x] sep = x"
| "strings_Join (x # y # ys) sep = x @ sep @ strings_Join (y # ys) sep"

section \<open>Rendering\<close>

text \<open>How a call ends: it returns, or the process exits with a status, or a slice
  expression is out of range and the run-time system panics.\<close>

datatype status = Returned | Exit nat | Panic

text \<open>The counters of \<^verbatim>\<open>RenderAllEntries\<close>. The three counts cannot overflow, since a slice
  holds fewer than \<open>2 ^ 63\<close> entries; the sum of the sizes can.\<close>

record totals =
  totalFileSize :: int
  totalFileCount :: int
  totalDirCount :: int
  totalSymLinkCount :: int

definition no_totals :: totals where
  "no_totals = \<lparr>totalFileSize = 0, totalFileCount = 0, totalDirCount = 0, totalSymLinkCount = 0\<rparr>"

text \<open>The statements under \<^verbatim>\<open>if includeTotals\<close> in the loop.\<close>

definition count_entry :: "FileStat \<Rightarrow> totals \<Rightarrow> totals" where
  "count_entry e tot =
     (let tot1 = (if ''F'' = FileType e
                  then tot\<lparr>totalFileSize := int64 (totalFileSize tot + Size e),
                           totalFileCount := totalFileCount tot + 1\<rparr>
                  else tot);
          tot2 = (if ''D'' = FileType e
                  then tot1\<lparr>totalDirCount := totalDirCount tot1 + 1\<rparr> else tot1)
      in if ''L'' = FileType e
         then tot2\<lparr>totalSymLinkCount := totalSymLinkCount tot2 + 1\<rparr> else tot2)"

text \<open>The modification time column. \<^verbatim>\<open>s[:23]\<close> and \<^verbatim>\<open>s[:19]\<close> panic when the string is
  shorter (\<^const>\<open>None\<close>).\<close>

definition render_modtime :: "host \<Rightarrow> bool \<Rightarrow> int \<Rightarrow> string option" where
  "render_modtime h addMilliseconds t =
     (let s = time_String h t
      in if addMilliseconds then
           (if length s < 23 then None
            else (let modtime = take 23 s
                  in if CHR '' '' = modtime ! 19 then Some (take 19 modtime @ ''.000'')
                     else Some modtime))
         else if length s < 19 then None
         else Some (take 19 s))"

text \<open>The size column: the size, divided first when mebibytes are asked for, then
  rendered.\<close>

definition render_size :: "host \<Rightarrow> bool \<Rightarrow> bool \<Rightarrow> int \<Rightarrow> string" where
  "render_size h addCommas convertToMiB sz =
     (let sz' = (if convertToMiB then sz sdiv 1048576 else sz)
      in if addCommas then RenderInteger h ''#,###.'' sz' else fmt_d sz')"

text \<open>The three tests at the head of the loop of \<^verbatim>\<open>RenderAllEntries\<close>, each of which
  passes over the entry with \<^verbatim>\<open>continue\<close>.\<close>

definition excluded :: "bool \<Rightarrow> bool \<Rightarrow> bool \<Rightarrow> FileStat \<Rightarrow> bool" where
  "excluded onlyFiles onlyDirs onlyLinks e \<longleftrightarrow>
     (onlyFiles \<and> ''F'' \<noteq> FileType e) \<or> (onlyDirs \<and> ''D'' \<noteq> FileType e)
     \<or> (onlyLinks \<and> ''L'' \<noteq> FileType e)"

text \<open>The loop of \<^verbatim>\<open>RenderAllEntries\<close> over the entries; the state is \<^verbatim>\<open>allRows\<close> and the
  counters.\<close>

fun RenderAllEntries_loop ::
  "host \<Rightarrow> bool \<Rightarrow> bool \<Rightarrow> bool \<Rightarrow> bool \<Rightarrow> bool \<Rightarrow> bool \<Rightarrow> bool \<Rightarrow> FileStat list \<Rightarrow>
   string list list \<times> totals \<Rightarrow> (string list list \<times> totals) option" where
  "RenderAllEntries_loop h addCommas convertToMiB addMilliseconds includeTotals
     onlyFiles onlyDirs onlyLinks [] st = Some st"
| "RenderAllEntries_loop h addCommas convertToMiB addMilliseconds includeTotals
     onlyFiles onlyDirs onlyLinks (e # rest) (allRows, tot) =
     (if excluded onlyFiles onlyDirs onlyLinks e then
        RenderAllEntries_loop h addCommas convertToMiB addMilliseconds includeTotals
          onlyFiles onlyDirs onlyLinks rest (allRows, tot)
      else
        (let tot' = (if includeTotals then count_entry e tot else tot);
             fsize = render_size h addCommas convertToMiB (Size e)
         in case render_modtime h addMilliseconds (ModTime e) of
              None \<Rightarrow> None
            | Some modtime \<Rightarrow>
                RenderAllEntries_loop h addCommas convertToMiB addMilliseconds includeTotals
                  onlyFiles onlyDirs onlyLinks rest
                  (allRows @ [[modtime, fsize, FileType e, FullName e]], tot')))"

text \<open>The values the block under \<^verbatim>\<open>if includeTotals\<close> computes after the loop:
  \<^verbatim>\<open>totalFileSize\<close> (divided when mebibytes are asked for), the three counts, and the two
  averages, which are \<^verbatim>\<open>float64\<close> conversions of \<^verbatim>\<open>int64\<close> quotients.\<close>

record summary =
  sum_totalFileSize :: int
  sum_totalFileCount :: int
  sum_totalDirCount :: int
  sum_totalSymLinkCount :: int
  averageFileSize :: int
  averageFilesPerDir :: int

definition summarize :: "bool \<Rightarrow> totals \<Rightarrow> summary" where
  "summarize convertToMiB tot =
     (let size = (if convertToMiB then totalFileSize tot sdiv 1048576 else totalFileSize tot)
      in \<lparr>sum_totalFileSize = size,
          sum_totalFileCount = totalFileCount tot,
          sum_totalDirCount = totalDirCount tot,
          sum_totalSymLinkCount = totalSymLinkCount tot,
          averageFileSize =
            (if totalFileCount tot > 0 then float64 (size sdiv totalFileCount tot) else 0),
          averageFilesPerDir =
            (if totalFileCount tot > 0 \<and> totalDirCount tot > 0
             then float64 (totalFileCount tot sdiv totalDirCount tot) else 0)\<rparr>)"

text \<open>The rows that block appends to \<^verbatim>\<open>allRows\<close>. The row of the average size is guarded by
  \<^verbatim>\<open>len(allRows) > 0\<close>, tested after the row of the total size is appended.\<close>

definition summary_rows :: "host \<Rightarrow> bool \<Rightarrow> summary \<Rightarrow> string list list" where
  "summary_rows h addCommas s =
     (let tsize = (if addCommas then RenderInteger h ''#,###.'' (sum_totalFileSize s)
                   else fmt_d (sum_totalFileSize s));
          asize = (if addCommas then RenderFloat h ''#,###.'' (averageFileSize s)
                   else fmt_f0 (averageFileSize s));
          dsize = (if addCommas then RenderFloat h ''#,###.'' (averageFilesPerDir s)
                   else fmt_f0 (averageFilesPerDir s))
      in [[[], tsize, '' '',
           ''  (total size for '' @ fmt_d (sum_totalFileCount s) @ '' files)'']]
         @ [[[], asize, '' '',
             ''(average size for '' @ fmt_d (sum_totalFileCount s) @ '' files)'']]
         @ (if sum_totalDirCount s > 0
            then [[[], fmt_d (sum_totalDirCount s), '' '', ''(num of directories)'']] else [])
         @ (if averageFilesPerDir s > 0
            then [[[], dsize, '' '', ''(average num of files per directory)'']] else [])
         @ (if sum_totalSymLinkCount s > 0
            then [[[], fmt_d (sum_totalSymLinkCount s), '' '', ''(num of sym links)'']]
            else []))"

text \<open>\<^verbatim>\<open>allRows\<close> as it is when the output is chosen; \<^const>\<open>None\<close> is a panic in the loop.\<close>

definition final_rows ::
  "host \<Rightarrow> FileStat list \<Rightarrow> bool \<Rightarrow> bool \<Rightarrow> bool \<Rightarrow> bool \<Rightarrow> bool \<Rightarrow> bool \<Rightarrow> bool \<Rightarrow>
   string list list option" where
  "final_rows h allEntries addCommas convertToMiB addMilliseconds includeTotals
     onlyFiles onlyDirs onlyLinks =
     (case RenderAllEntries_loop h addCommas convertToMiB addMilliseconds includeTotals
             onlyFiles onlyDirs onlyLinks allEntries ([], no_totals) of
        None \<Rightarrow> None
      | Some (allRows, tot) \<Rightarrow>
          Some (if includeTotals
                then allRows @ summary_rows h addCommas (summarize convertToMiB tot)
                else allRows))"

definition header :: "string list" where
  "header = [''Mod Time'', ''Size'', ''Type'', ''Name'']"

definition dquote :: string where
  "dquote = [CHR 0x22]"

definition csv_line :: "string list \<Rightarrow> string" where
  "csv_line row = dquote @ strings_Join row (dquote @ '','' @ dquote) @ dquote @ newline"

definition output_CSV :: "string list list \<Rightarrow> string" where
  "output_CSV allRows = csv_line header @ concat (map csv_line allRows)"

definition output_HTML :: "string list list \<Rightarrow> string" where
  "output_HTML allRows =
     ''<!DOCTYPE html>'' @ newline
     @ ''<html>'' @ newline
     @ ''<body>'' @ newline
     @ ''<table border='1' cellpadding='3' cellspacing='3'>'' @ newline
     @ ''<th>'' @ strings_Join header ''</th><th>'' @ ''</th>'' @ newline
     @ concat (map (\<lambda>row. ''<tr>'' @ newline
                        @ [CHR 0x09] @ ''<td>'' @ strings_Join row ''</td><td>'' @ ''</td>''
                        @ newline @ ''</tr>'' @ newline) allRows)
     @ ''</table>'' @ newline
     @ ''</body>'' @ newline
     @ ''</html>'' @ newline"

text \<open>\<^verbatim>\<open>json.MarshalIndent(allRows, "", "    ")\<close> for a \<^verbatim>\<open>[][]string\<close>. A nil slice is encoded
  as \<^verbatim>\<open>null\<close>, and \<^verbatim>\<open>allRows\<close> is nil exactly when nothing was appended to it. A row is never
  nil or empty: each is built with four columns.\<close>

definition json_row :: "host \<Rightarrow> string list \<Rightarrow> string" where
  "json_row h row =
     (if row = [] then ''[]''
      else ''['' @ newline
           @ strings_Join (map (\<lambda>c. ''        '' @ json_String h c) row) ('','' @ newline)
           @ newline @ ''    ]'')"

definition json_MarshalIndent :: "host \<Rightarrow> string list list \<Rightarrow> string" where
  "json_MarshalIndent h allRows =
     (if allRows = [] then ''null''
      else ''['' @ newline
           @ strings_Join (map (\<lambda>row. ''    '' @ json_row h row) allRows) ('','' @ newline)
           @ newline @ '']'')"

text \<open>The JSON branch parses the first column of each row back; the first row that does not
  parse has its error printed on standard output and ends the process with status 1.
  The \<^verbatim>\<open>jsonRows\<close> built on the way are not used: \<^verbatim>\<open>allRows\<close> is what is encoded.\<close>

fun json_check_rows :: "host \<Rightarrow> string list list \<Rightarrow> string option" where
  "json_check_rows h [] = None"
| "json_check_rows h (row # rest) =
     (case time_Parse_error h (row ! 0) of
        Some e \<Rightarrow> Some e
      | None \<Rightarrow> json_check_rows h rest)"

definition output_JSON :: "host \<Rightarrow> string list list \<Rightarrow> string \<times> status" where
  "output_JSON h allRows =
     (case json_check_rows h allRows of
        Some e \<Rightarrow> (e @ newline, Exit 1)
      | None \<Rightarrow> (json_MarshalIndent h allRows @ newline, Returned))"

text \<open>\<^verbatim>\<open>shortenFileName\<close>: \<^verbatim>\<open>make([][]string, len(allRows))\<close> is a slice of that many nil rows
  (a nil row is \<open>[]\<close>), to which the loop appends. Every row has four columns, so
  \<^verbatim>\<open>row[3]\<close> is in range.\<close>

fun shortenFileName_loop ::
  "host \<Rightarrow> int \<Rightarrow> string list list \<Rightarrow> string list list \<Rightarrow> string list list" where
  "shortenFileName_loop h maxWidth [] newRows = newRows"
| "shortenFileName_loop h maxWidth (row # rest) newRows =
     shortenFileName_loop h maxWidth rest
       (newRows @ [row[3 := ellipsis_Shorten h (row ! 3) maxWidth]])"

definition shortenFileName :: "host \<Rightarrow> string list list \<Rightarrow> int \<Rightarrow> string list list" where
  "shortenFileName h allRows maxWidth =
     shortenFileName_loop h maxWidth allRows (replicate (length allRows) [])"

definition table_maxWidth :: "host \<Rightarrow> bool \<Rightarrow> int \<Rightarrow> int" where
  "table_maxWidth h longFileNames longWidth =
     (if longFileNames = False then
        (let w1 = termsize_Width h - minTermWidth;
             w2 = (if longWidth > 0 then longWidth - minTermWidth + 2 else w1)
         in if w2 < minTermWidth then minTermWidth else w2)
      else 3000)"

text \<open>The rows handed to the table writer (\<^verbatim>\<open>table.AppendBulk\<close>) in the default format.\<close>

definition table_rows :: "host \<Rightarrow> string list list \<Rightarrow> bool \<Rightarrow> int \<Rightarrow> string list list" where
  "table_rows h allRows longFileNames longWidth =
     shortenFileName h allRows (table_maxWidth h longFileNames longWidth)"

text \<open>The output stage of \<^verbatim>\<open>RenderAllEntries\<close>: what is written to standard output for the
  final \<^verbatim>\<open>allRows\<close>, and how the call ends.\<close>

definition render_output ::
  "host \<Rightarrow> string list list \<Rightarrow> bool \<Rightarrow> bool \<Rightarrow> bool \<Rightarrow> bool \<Rightarrow> int \<Rightarrow> string \<times> status" where
  "render_output h allRows outputCSV outputHTML outputJSON longFileNames longWidth =
     (if outputCSV then (output_CSV allRows, Returned)
      else if outputHTML then (output_HTML allRows, Returned)
      else if outputJSON then output_JSON h allRows
      else if length allRows > 0 then
        (tablewriter_Render h header (table_rows h allRows longFileNames longWidth), Returned)
      else ([], Returned))"

definition RenderAllEntries ::
  "host \<Rightarrow> FileStat list \<Rightarrow> bool \<Rightarrow> bool \<Rightarrow> bool \<Rightarrow> bool \<Rightarrow> bool \<Rightarrow> bool \<Rightarrow> bool \<Rightarrow>
   bool \<Rightarrow> bool \<Rightarrow> bool \<Rightarrow> bool \<Rightarrow> int \<Rightarrow> string \<times> status" where
  "RenderAllEntries h allEntries addCommas convertToMiB addMilliseconds includeTotals
     onlyFiles onlyDirs onlyLinks outputCSV outputHTML outputJSON longFileNames longWidth =
     (case final_rows h allEntries addCommas convertToMiB addMilliseconds includeTotals
             onlyFiles onlyDirs onlyLinks of
        None \<Rightarrow> ([], Panic)
      | Some allRows \<Rightarrow>
          render_output h allRows outputCSV outputHTML outputJSON longFileNames longWidth)"

section \<open>Command line and main\<close>

text \<open>\<^verbatim>\<open>ValidateArgs\<close>: \<^const>\<open>None\<close> when it returns; otherwise the text written to standard
  error and the exit status. Its parameters \<^verbatim>\<open>dateOlder\<close> and \<^verbatim>\<open>dateNewer\<close> are declared in
  this order.\<close>

definition count_set :: "bool list \<Rightarrow> nat" where
  "count_set bs = length (filter (\<lambda>b. b) bs)"

definition ValidateArgs ::
  "bool \<Rightarrow> bool \<Rightarrow> bool \<Rightarrow> bool \<Rightarrow> bool \<Rightarrow> bool \<Rightarrow> bool \<Rightarrow> bool \<Rightarrow> bool \<Rightarrow> bool \<Rightarrow> bool \<Rightarrow>
   bool \<Rightarrow> bool \<Rightarrow> bool \<Rightarrow> bool \<Rightarrow> string \<Rightarrow> string \<Rightarrow> int \<Rightarrow> int \<Rightarrow> bool \<Rightarrow> int \<Rightarrow>
   (string \<times> nat) option" where
  "ValidateArgs argsSortSize argsSortSizeDesc argsSortModTime argsSortModTimeDesc argsSortName
     argsSortNameDesc argsSortNameCaseInsen argsSortNameCaseInsenDesc argsOnlyFiles argsOnlyDirs
     argsOnlyLinks argsTotals argsOutputCSV argsOutputHTML argsOutputJSON dateOlder dateNewer
     sizeSmaller sizeLarger longFileNames longWidth =
     (if count_set [argsSortSize, argsSortSizeDesc, argsSortModTime, argsSortModTimeDesc,
                    argsSortName, argsSortNameDesc, argsSortNameCaseInsen,
                    argsSortNameCaseInsenDesc] > 1 then
        Some (''Error: only one '-s' sort argument can be given.'' @ newline @ newline, 2)
      else if count_set [argsOnlyFiles, argsOnlyDirs, argsOnlyLinks] > 1 then
        Some (''Error: only one '-i' include argument can be given.'' @ newline @ newline, 2)
      else if count_set [argsOutputCSV, argsOutputHTML, argsOutputJSON] > 1 then
        Some (''Error: only one '-o' output argument can be given.'' @ newline @ newline, 2)
      else if argsTotals \<and> (argsOutputCSV \<or> argsOutputHTML \<or> argsOutputJSON) then
        Some (''Error: -t can not be used with: -oc, -oh, or -oj'' @ newline @ newline, 2)
      else if length dateOlder > 0 \<and> length dateNewer > 0
              \<and> time_Parse_dateFormat dateOlder = None then
        Some (''Error when parsing date for '-do': '' @ dateOlder @ newline, 2)
      else if length dateOlder > 0 \<and> length dateNewer > 0
              \<and> time_Parse_dateFormat dateNewer = None then
        Some (''Error when parsing date for '-dn': '' @ dateNewer @ newline, 2)
      else if length dateOlder > 0 \<and> length dateNewer > 0
              \<and> the (time_Parse_dateFormat dateOlder) > the (time_Parse_dateFormat dateNewer)
      then
        Some (''Error: '-dn' date is newer than '-do'' @ [CHR 0x27] @ newline, 2)
      else if sizeSmaller > 0 \<and> sizeSmaller < sizeLarger then
        Some (''Error: '-szs' file size is smaller than '-szl'' @ [CHR 0x27] @ newline, 2)
      else if longFileNames = True \<and> longWidth > 0 then
        Some (''Error: '-long' and '-longwidth' are mutually exclusive'' @ newline, 2)
      else None)"

text \<open>The parsed command line: one field for each flag, named after the flag, and the
  remaining arguments.\<close>

record cmdline =
  flag_ss :: bool
  flag_sS :: bool
  flag_sd :: bool
  flag_sD :: bool
  flag_sn :: bool
  flag_sN :: bool
  flag_si :: bool
  flag_sI :: bool
  flag_v :: bool
  flag_q :: bool
  flag_c :: bool
  flag_m :: bool
  flag_M :: bool
  flag_t :: bool
  flag_if :: bool
  flag_id :: bool
  flag_il :: bool
  flag_oc :: bool
  flag_oh :: bool
  flag_oj :: bool
  flag_f :: string
  flag_ed :: bool
  flag_er :: string
  flag_ir :: string
  flag_dn :: string
  flag_do :: string
  flag_szs :: int
  flag_szl :: int
  flag_long :: bool
  flag_longwidth :: int
  flag_Args :: "string list"

text \<open>The names matched by the patterns of \<^verbatim>\<open>-f\<close>. A pattern that \<^verbatim>\<open>filepath.Glob\<close> rejects
  has its error written to standard error and is passed over; the names of the others
  become the keys of a map.\<close>

fun glob_all :: "host \<Rightarrow> string list \<Rightarrow> string \<times> string list \<Rightarrow> string \<times> string list" where
  "glob_all h [] st = st"
| "glob_all h (g # rest) (errs, names) =
     glob_all h rest
       (case filepath_Glob h g of
          Inl e \<Rightarrow> (errs @ e @ newline, names)
        | Inr currentFilelist \<Rightarrow> (errs, names @ currentFilelist))"

text \<open>The list of file names \<^verbatim>\<open>main\<close> builds: the text written to standard error and the
  exit status or \<^verbatim>\<open>allFilenames\<close>. Go leaves the order in which the keys of a map are
  visited open; the model takes each name once, in the order of its first match.\<close>

definition get_allFilenames :: "host \<Rightarrow> cmdline \<Rightarrow> string \<times> (nat + string list)" where
  "get_allFilenames h cl =
     (if length (flag_f cl) > 0 then
        (let (errs, names) = glob_all h (strings_Fields h (flag_f cl)) ([], []);
             allFilenames = remdups names
         in if length allFilenames = 0 then
              (errs @ ''Error: -f did not match any file names.'' @ newline @ newline, Inl 3)
            else if length allFilenames = 1 then
              (errs @ ''Warning: -f only matched one file name.'' @ newline @ newline,
               Inr allFilenames)
            else (errs, Inr allFilenames))
      else
        (case (if 0 = length (flag_Args cl) then Inr (''STDIN'', os_Stdin h)
               else map_sum id (\<lambda>lines. (hd (flag_Args cl), lines))
                      (os_Open h (hd (flag_Args cl)))) of
           Inl e \<Rightarrow> (e @ newline, Inl 1)
         | Inr (usingFile, allFilenames) \<Rightarrow>
             if length allFilenames = 0 then
               (''Error: No files were listed in '' @ [CHR 0x27] @ usingFile @ [CHR 0x27]
                  @ newline @ newline, Inl 3)
             else ([], Inr allFilenames)))"

text \<open>The call of \<^verbatim>\<open>ValidateArgs\<close> in \<^verbatim>\<open>main\<close>, with the arguments in the order \<^verbatim>\<open>main\<close>
  passes them: the value of \<^verbatim>\<open>-dn\<close> goes to the parameter \<^verbatim>\<open>dateOlder\<close> and the value of
  \<^verbatim>\<open>-do\<close> to the parameter \<^verbatim>\<open>dateNewer\<close>.\<close>

definition main_ValidateArgs :: "cmdline \<Rightarrow> (string \<times> nat) option" where
  "main_ValidateArgs cl =
     ValidateArgs (flag_ss cl) (flag_sS cl) (flag_sd cl) (flag_sD cl) (flag_sn cl)
       (flag_sN cl) (flag_si cl) (flag_sI cl) (flag_if cl) (flag_id cl) (flag_il cl)
       (flag_t cl) (flag_oc cl) (flag_oh cl) (flag_oj cl) (flag_dn cl) (flag_do cl)
       (flag_szs cl) (flag_szl cl) (flag_long cl) (flag_longwidth cl)"

text \<open>What a run of the program leaves behind: the bytes on standard output, the bytes on
  standard error, and how the process ended (\<^term>\<open>Exit 0\<close> when \<^verbatim>\<open>main\<close> returns).\<close>

record outcome =
  stdout :: string
  stderr :: string
  ended :: status

definition main :: "host \<Rightarrow> cmdline \<Rightarrow> outcome" where
  "main h cl =
     (if flag_v cl then
        \<lparr>stdout = [], stderr = ''version '' @ version @ newline, ended = Exit 1\<rparr>
      else
        (case main_ValidateArgs cl of
           Some (msg, code) \<Rightarrow> \<lparr>stdout = [], stderr = msg, ended = Exit code\<rparr>
         | None \<Rightarrow>
             (case get_allFilenames h cl of
                (errs1, Inl code) \<Rightarrow> \<lparr>stdout = [], stderr = errs1, ended = Exit code\<rparr>
              | (errs1, Inr allFilenames) \<Rightarrow>
                  (case GetFileInfo h allFilenames (flag_q cl) (flag_ed cl) (flag_er cl)
                          (flag_ir cl) (flag_dn cl) (flag_do cl) (flag_szs cl) (flag_szl cl) of
                     (errs2, Inl code) \<Rightarrow>
                       \<lparr>stdout = [], stderr = errs1 @ errs2, ended = Exit code\<rparr>
                   | (errs2, Inr allEntries) \<Rightarrow>
                       (let sorted = SortAllEntries h allEntries (flag_ss cl) (flag_sS cl)
                                       (flag_sd cl) (flag_sD cl) (flag_sn cl) (flag_sN cl)
                                       (flag_si cl) (flag_sI cl);
                            (out, st) = RenderAllEntries h sorted (flag_c cl) (flag_m cl)
                                          (flag_M cl) (flag_t cl) (flag_if cl) (flag_id cl)
                                          (flag_il cl) (flag_oc cl) (flag_oh cl) (flag_oj cl)
                                          (flag_long cl) (flag_longwidth cl)
                        in \<lparr>stdout = out, stderr = errs1 @ errs2,
                            ended = (if st = Returned then Exit 0 else st)\<rparr>)))))"

section \<open>A sample host\<close>

text \<open>
  A small host on which the model can be run: five paths (three regular files of 10, 20
  and 30 bytes and two directories), the local zone UTC, whole-second time stamps. Its
  library functions are simple stand-ins with the interface of the real ones: expressions
  are matched as literal substrings and \<^verbatim>\<open>(\<close> does not compile, a pattern matches the path
  it spells, strings are encoded in JSON without escapes.
\<close>

definition sample_files :: "(string \<times> FileInfo) list" where
  "sample_files =
     [(''a.txt'', \<lparr>fi_Size = 10, fi_ModTime = Date 2019 3 25 23 59 59 0 0,
                   fi_IsRegular = True, fi_IsDir = False, fi_IsSymlink = False\<rparr>),
      (''b.txt'', \<lparr>fi_Size = 20, fi_ModTime = Date 2019 3 26 0 0 1 0 0,
                   fi_IsRegular = True, fi_IsDir = False, fi_IsSymlink = False\<rparr>),
      (''c.txt'', \<lparr>fi_Size = 30, fi_ModTime = Date 2019 3 27 12 0 0 0 0,
                   fi_IsRegular = True, fi_IsDir = False, fi_IsSymlink = False\<rparr>),
      (''d1'', \<lparr>fi_Size = 4096, fi_ModTime = Date 2019 3 24 8 30 0 0 0,
                fi_IsRegular = False, fi_IsDir = True, fi_IsSymlink = False\<rparr>),
      (''d2'', \<lparr>fi_Size = 4096, fi_ModTime = Date 2019 3 28 8 30 0 0 0,
                fi_IsRegular = False, fi_IsDir = True, fi_IsSymlink = False\<rparr>)]"

definition pad2 :: "int \<Rightarrow> string" where
  "pad2 n = (if n < 10 then ''0'' @ fmt_d n else fmt_d n)"

definition sample_time_String :: "int \<Rightarrow> string" where
  "sample_time_String t =
     (let (y, m, d) = YearMonthDay 0 t; s = (t div Second) mod 86400
      in fmt_d y @ ''-'' @ pad2 m @ ''-'' @ pad2 d @ '' '' @ pad2 (s div 3600) @ '':''
         @ pad2 (s div 60 mod 60) @ '':'' @ pad2 (s mod 60) @ '' +0000 UTC'')"

fun group_thousands :: "string \<Rightarrow> string" where
  "group_thousands (a # b # c # d # rest) = a # b # c # CHR '','' # group_thousands (d # rest)"
| "group_thousands ds = ds"

definition sample_RenderInteger :: "string \<Rightarrow> int \<Rightarrow> string" where
  "sample_RenderInteger format n =
     (if n < 0 then ''-'' else []) @ rev (group_thousands (rev (decimal \<bar>n\<bar>)))"

fun split_fields :: "string \<Rightarrow> string \<Rightarrow> string list" where
  "split_fields [] word = (if word = [] then [] else [word])"
| "split_fields (c # cs) word =
     (if c = CHR '' '' then (if word = [] then [] else [word]) @ split_fields cs []
      else split_fields cs (word @ [c]))"

text \<open>The table writer of the sample host prints the header and then one line for each row
  that has cells, the cells separated by bars. \<^verbatim>\<open>tablewriter\<close> is not part of \<^verbatim>\<open>fstat.go\<close>; it
  prints a row on as many lines as its tallest cell has, hence no line for a row without
  cells, and the stand-in does the same. The frame, the padding and the upper-case header
  of \<^verbatim>\<open>tablewriter\<close> are left out.\<close>

definition sample_tablewriter_Render :: "string list \<Rightarrow> string list list \<Rightarrow> string" where
  "sample_tablewriter_Render hdr rows =
     concat (map (\<lambda>row. strings_Join row '' | '' @ newline)
               (hdr # filter (\<lambda>row. row \<noteq> []) rows))"

definition sample_host :: host where
  "sample_host =
     \<lparr>os_Lstat = (\<lambda>name. case map_of sample_files name of
                      Some f \<Rightarrow> Inr f
                    | None \<Rightarrow> Inl (''lstat '' @ name @ '': no such file or directory'')),
      os_PathSeparator = CHR ''/'',
      os_Stdin = map fst sample_files,
      os_Open = (\<lambda>name. Inl (''open '' @ name @ '': no such file or directory'')),
      filepath_Glob = (\<lambda>pattern. Inr (filter (\<lambda>name. name = pattern) (map fst sample_files))),
      regexp_Compile = (\<lambda>expr. if expr = ''('' then None
                                else Some (\<lambda>s. strings_Contains s expr)),
      strings_ToLower = map (\<lambda>c. if CHR ''A'' \<le> c \<and> c \<le> CHR ''Z''
                                   then char_of (of_char c + (32 :: nat)) else c),
      strings_Fields = (\<lambda>s. split_fields s []),
      time_Local = 0,
      time_String = sample_time_String,
      time_Parse_error = (\<lambda>s. if length s < 19 then Some ''parsing time: cannot parse''
                                 else None),
      RenderInteger = sample_RenderInteger,
      RenderFloat = sample_RenderInteger,
      ellipsis_Shorten = (\<lambda>s maxWidth. if int (length s) \<le> maxWidth then s
                                        else take (nat maxWidth) s),
      termsize_Width = 80,
      tablewriter_Render = sample_tablewriter_Render,
      json_String = (\<lambda>s. dquote @ s @ dquote)\<rparr>"

text \<open>The command line with no flag set and no argument: every flag at its default.\<close>

definition no_flags :: cmdline where
  "no_flags =
     \<lparr>flag_ss = False, flag_sS = False, flag_sd = False, flag_sD = False, flag_sn = False,
      flag_sN = False, flag_si = False, flag_sI = False, flag_v = False, flag_q = False,
      flag_c = False, flag_m = False, flag_M = False, flag_t = False, flag_if = False,
      flag_id = False, flag_il = False, flag_oc = False, flag_oh = False, flag_oj = False,
      flag_f = [], flag_ed = False, flag_er = [], flag_ir = [], flag_dn = [], flag_do = [],
      flag_szs = 0, flag_szl = 0, flag_long = False, flag_longwidth = 0, flag_Args = []\<rparr>"

section \<open>Properties of the sort functions\<close>

text \<open>Insertion sort meets the contract of \<^verbatim>\<open>sort.Slice\<close> whenever \<^verbatim>\<open>less\<close> is the strict
  order of some key.\<close>

lemma sort_insert_mset: "mset (sort_insert lessFn x ys) = add_mset x (mset ys)"
  by (induction ys) auto

lemma sort_Slice_mset: "mset (sort_Slice lessFn xs) = mset xs"
  by (induction xs) (auto simp: sort_Slice_def sort_insert_mset)

lemma sort_insert_set: "set (sort_insert lessFn x ys) = insert x (set ys)"
  by (induction ys) auto

lemma sort_insert_sorted:
  fixes f :: "'a \<Rightarrow> 'k::linorder"
  assumes "\<And>a b. lessFn a b \<longleftrightarrow> f a < f b" and "sorted (map f ys)"
  shows "sorted (map f (sort_insert lessFn x ys))"
  using assms(2)
proof (induction ys)
  case Nil
  then show ?case by simp
next
  case (Cons y ys)
  then show ?case
    by (auto simp: assms(1) sort_insert_set)
qed

lemma sort_Slice_sorted:
  fixes f :: "'a \<Rightarrow> 'k::linorder"
  assumes "\<And>a b. lessFn a b \<longleftrightarrow> f a < f b"
  shows "sorted (map f (sort_Slice lessFn xs))"
proof (induction xs)
  case Nil
  show ?case by (simp add: sort_Slice_def)
next
  case (Cons x xs)
  have "sort_Slice lessFn (x # xs) = sort_insert lessFn x (sort_Slice lessFn xs)"
    by (simp add: sort_Slice_def)
  with Cons show ?case
    by (simp add: sort_insert_sorted [OF assms])
qed

lemma sortSize_less_ascending: "sortSize_less True a b \<longleftrightarrow> size_name a < size_name b"
  by (auto simp: sortSize_less_def size_name_def)

lemma sortSize_less_descending: "sortSize_less False a b \<longleftrightarrow> neg_size_name a < neg_size_name b"
  by (auto simp: sortSize_less_def neg_size_name_def)

lemma sort_Slice_result_key:
  fixes f :: "'a \<Rightarrow> 'k::linorder"
  assumes "\<And>a b. lessFn a b \<longleftrightarrow> f a < f b"
  shows "sort_Slice_result lessFn xs ys \<longleftrightarrow> mset ys = mset xs \<and> sorted (map f ys)"
  by (simp add: sort_Slice_result_def assms sorted_map not_less)

lemma sortSize_meets_contract:
  "sort_Slice_result (sortSize_less ascending) entry (sortSize entry ascending)"
proof (cases ascending)
  case True
  then show ?thesis
    by (simp add: sort_Slice_result_key [of _ size_name] sortSize_less_ascending
        sortSize_def sort_Slice_mset sort_Slice_sorted [of _ size_name])
next
  case False
  then show ?thesis
    by (simp add: sort_Slice_result_key [of _ neg_size_name] sortSize_less_descending
        sortSize_def sort_Slice_mset sort_Slice_sorted [of _ neg_size_name])
qed

lemma sorted_same_mset_unique:
  fixes xs ys :: "'k::linorder list"
  assumes "sorted xs" "sorted ys" "mset xs = mset ys"
  shows "xs = ys"
proof -
  have "sort ys = xs" using assms by (intro properties_for_sort) simp_all
  moreover have "sort ys = ys" using assms by (intro properties_for_sort) simp_all
  ultimately show ?thesis by simp
qed

lemma concat_size_groups: "concat (size_groups xs) = xs"
  by (induction xs rule: size_groups.induct) simp_all

lemma mset_concat_rev: "mset (concat (rev xss)) = mset (concat xss)"
  by (induction xss) simp_all

lemma set_concat_rev_size_groups: "set (concat (rev (size_groups xs))) = set xs"
proof -
  have "set (concat (rev (size_groups xs))) = set (concat (size_groups xs))"
    by simp
  then show ?thesis by (simp only: concat_size_groups)
qed

lemma dropWhile_larger:
  assumes "sorted (map Size (x # xs))" "a \<in> set (dropWhile (\<lambda>y. Size y = Size x) xs)"
  shows "Size x < Size a"
  using assms
proof (induction xs)
  case Nil
  then show ?case by simp
next
  case (Cons y ys)
  show ?case
  proof (cases "Size y = Size x")
    case True
    with Cons show ?thesis by auto
  next
    case False
    with Cons.prems show ?thesis by fastforce
  qed
qed

lemma sorted_size_name_Size: "sorted (map size_name xs) \<Longrightarrow> sorted (map Size xs)"
  by (induction xs) (auto simp: size_name_def less_eq_prod_def)

lemma same_size_neg:
  "Size a = Size b \<Longrightarrow> neg_size_name a \<le> neg_size_name b \<longleftrightarrow> size_name a \<le> size_name b"
  by (simp add: size_name_def neg_size_name_def less_eq_prod_def)

lemma same_size_name:
  "Size a = Size b \<Longrightarrow> size_name a \<le> size_name b \<longleftrightarrow> FullName a \<le> FullName b"
  by (simp add: size_name_def less_eq_prod_def)

lemma sorted_rev_groups:
  "sorted (map size_name xs) \<Longrightarrow> sorted (map neg_size_name (concat (rev (size_groups xs))))"
proof (induction xs rule: size_groups.induct)
  case 1
  then show ?case by simp
next
  case (2 x xs)
  let ?P = "\<lambda>y. Size y = Size x"
  let ?A = "concat (rev (size_groups (dropWhile ?P xs)))"
  let ?B = "x # takeWhile ?P xs"
  have srt: "sorted_wrt (\<lambda>a b. size_name a \<le> size_name b) (x # xs)"
    using "2.prems" by (simp only: sorted_map)
  have "sorted_wrt (\<lambda>a b. size_name a \<le> size_name b) (dropWhile ?P xs)"
    using srt by (auto intro: sorted_wrt_dropWhile)
  then have A: "sorted (map neg_size_name ?A)"
    using "2.IH" by (simp only: sorted_map)
  have same: "\<forall>b \<in> set ?B. Size b = Size x"
    by (auto dest: set_takeWhileD)
  have B_eq: "?B = takeWhile ?P (x # xs)" by simp
  have "sorted_wrt (\<lambda>a b. size_name a \<le> size_name b) ?B"
    unfolding B_eq by (rule sorted_wrt_takeWhile [OF srt])
  then have "sorted_wrt (\<lambda>a b. neg_size_name a \<le> neg_size_name b) ?B"
  proof (rule sorted_wrt_mono_rel [rotated])
    fix a b
    assume "a \<in> set ?B" "b \<in> set ?B" and le: "size_name a \<le> size_name b"
    with same have "Size a = Size b" by metis
    with le show "neg_size_name a \<le> neg_size_name b"
      by (simp add: same_size_neg)
  qed
  then have B: "sorted (map neg_size_name ?B)"
    by (simp only: sorted_map)
  have cross: "neg_size_name a \<le> neg_size_name b" if "a \<in> set ?A" "b \<in> set ?B" for a b
  proof -
    have "a \<in> set (dropWhile ?P xs)"
      using that(1) by (simp only: set_concat_rev_size_groups)
    then have "Size x < Size a"
      using sorted_size_name_Size [OF "2.prems"] by (rule dropWhile_larger [rotated])
    moreover have "Size b = Size x" using same that(2) by blast
    ultimately show ?thesis by (simp add: neg_size_name_def less_eq_prod_def)
  qed
  have "concat (rev (size_groups (x # xs))) = ?A @ ?B" by simp
  then show ?case
    using A B cross by (simp only: map_append sorted_append set_map) blast
qed

lemma size_groups_ties:
  "sorted (map size_name xs) \<or> sorted (map neg_size_name xs) \<Longrightarrow> g \<in> set (size_groups xs) \<Longrightarrow>
   g \<noteq> [] \<and> (\<forall>e \<in> set g. Size e = Size (hd g)) \<and> sorted (map FullName g)"
proof (induction xs rule: size_groups.induct)
  case 1
  then show ?case by simp
next
  case (2 x xs)
  let ?P = "\<lambda>y. Size y = Size x"
  let ?B = "x # takeWhile ?P xs"
  have same: "Size b = Size x" if "b \<in> set ?B" for b
    using that by (auto dest: set_takeWhileD)
  have srt: "sorted_wrt (\<lambda>a b. size_name a \<le> size_name b) (x # xs)
      \<or> sorted_wrt (\<lambda>a b. neg_size_name a \<le> neg_size_name b) (x # xs)"
    using "2.prems"(1) by (simp only: sorted_map)
  from "2.prems"(2) have "g = ?B \<or> g \<in> set (size_groups (dropWhile ?P xs))"
    by simp
  then show ?case
  proof
    assume g: "g = ?B"
    have B_eq: "?B = takeWhile ?P (x # xs)" by simp
    have "sorted_wrt (\<lambda>a b. size_name a \<le> size_name b) ?B
        \<or> sorted_wrt (\<lambda>a b. neg_size_name a \<le> neg_size_name b) ?B"
      unfolding B_eq using srt by (blast intro: sorted_wrt_takeWhile)
    then have "sorted_wrt (\<lambda>a b. FullName a \<le> FullName b) ?B"
    proof
      assume s: "sorted_wrt (\<lambda>a b. size_name a \<le> size_name b) ?B"
      show ?thesis
      proof (rule sorted_wrt_mono_rel [OF _ s])
        fix a b
        assume a: "a \<in> set ?B" and b: "b \<in> set ?B" and le: "size_name a \<le> size_name b"
        have "Size a = Size b" using same [OF a] same [OF b] by simp
        with le show "FullName a \<le> FullName b"
          by (simp add: same_size_name)
      qed
    next
      assume s: "sorted_wrt (\<lambda>a b. neg_size_name a \<le> neg_size_name b) ?B"
      show ?thesis
      proof (rule sorted_wrt_mono_rel [OF _ s])
        fix a b
        assume a: "a \<in> set ?B" and b: "b \<in> set ?B"
          and le: "neg_size_name a \<le> neg_size_name b"
        have "Size a = Size b" using same [OF a] same [OF b] by simp
        with le show "FullName a \<le> FullName b"
          by (simp add: same_size_neg same_size_name)
      qed
    qed
    then have "sorted (map FullName g)"
      unfolding g by (simp only: sorted_map)
    moreover have "g \<noteq> []" unfolding g by simp
    moreover have "\<forall>e \<in> set g. Size e = Size (hd g)"
      unfolding g list.sel using same by blast
    ultimately show ?thesis by blast
  next
    assume g: "g \<in> set (size_groups (dropWhile ?P xs))"
    from srt have "sorted_wrt (\<lambda>a b. size_name a \<le> size_name b) xs
        \<or> sorted_wrt (\<lambda>a b. neg_size_name a \<le> neg_size_name b) xs"
      by auto
    then have "sorted_wrt (\<lambda>a b. size_name a \<le> size_name b) (dropWhile ?P xs)
        \<or> sorted_wrt (\<lambda>a b. neg_size_name a \<le> neg_size_name b) (dropWhile ?P xs)"
      by (blast intro: sorted_wrt_dropWhile)
    then have "sorted (map size_name (dropWhile ?P xs))
        \<or> sorted (map neg_size_name (dropWhile ?P xs))"
      by (simp only: sorted_map)
    then show ?thesis using g by (rule "2.IH")
  qed
qed

lemma sorted_neg_size_name_Size:
  "sorted (map neg_size_name xs) \<Longrightarrow> sorted (map (\<lambda>e. - Size e) xs)"
  by (induction xs) (auto simp: neg_size_name_def less_eq_prod_def)

text \<open>
  Whatever \<^verbatim>\<open>sort.Slice\<close> returns for the two comparisons of \<^verbatim>\<open>sortSize\<close>, the descending result
  consists of the tie groups of the ascending one in reverse order of the groups.
\<close>

lemma sort_Slice_result_reversal:
  assumes "sort_Slice_result (sortSize_less True) entry asc"
      and "sort_Slice_result (sortSize_less False) entry desc"
  shows "map size_name desc = map size_name (concat (rev (size_groups asc)))
       \<and> (\<forall>g \<in> set (size_groups asc) \<union> set (size_groups desc).
             (\<forall>e \<in> set g. Size e = Size (hd g)) \<and> sorted (map FullName g))"
proof -
  have asc: "mset asc = mset entry" "sorted (map size_name asc)"
    using assms(1) by (simp_all add: sort_Slice_result_key [of _ size_name] sortSize_less_ascending)
  have desc: "mset desc = mset entry" "sorted (map neg_size_name desc)"
    using assms(2)
    by (simp_all add: sort_Slice_result_key [of _ neg_size_name] sortSize_less_descending)
  let ?r = "concat (rev (size_groups asc))"
  have "mset ?r = mset asc"
    by (simp only: mset_concat_rev concat_size_groups)
  then have "mset (map neg_size_name desc) = mset (map neg_size_name ?r)"
    using asc(1) desc(1) by simp
  then have "map neg_size_name desc = map neg_size_name ?r"
    using desc(2) sorted_rev_groups [OF asc(2)] by (intro sorted_same_mset_unique)
  moreover have conv: "map size_name zs = map (\<lambda>k. (- fst k, snd k)) (map neg_size_name zs)"
    for zs by (simp add: neg_size_name_def size_name_def)
  ultimately have eq: "map size_name desc = map size_name ?r"
    by (simp only: conv)
  have "(\<forall>e \<in> set g. Size e = Size (hd g)) \<and> sorted (map FullName g)"
    if "g \<in> set (size_groups asc) \<union> set (size_groups desc)" for g
    using that size_groups_ties [of asc g] size_groups_ties [of desc g] asc(2) desc(2) by blast
  with eq show ?thesis by blast
qed

text \<open>
  Claim C2. For every entry sequence, \<^verbatim>\<open>sortSize\<close> ascending and \<^verbatim>\<open>sortSize\<close> descending both
  rearrange the sequence, the first by size ascending and the second by size descending,
  and they give reversed orders except within the groups of entries of equal size: the
  descending order consists of the tie groups of the ascending order, taken in reverse order
  of the groups, each group in the order it has in the ascending result. In both results
  every tie group has one size and is ordered by \<^verbatim>\<open>FullName\<close> ascending (bytewise). The orders
  are compared on the two fields the comparison reads: \<^verbatim>\<open>sort.Slice\<close> is not stable, and
  entries that agree in both fields may come in either order.
\<close>

theorem sortSize_reversal:
  "mset (sortSize entry True) = mset entry
   \<and> mset (sortSize entry False) = mset entry
   \<and> sorted (map Size (sortSize entry True))
   \<and> sorted (map (\<lambda>e. - Size e) (sortSize entry False))
   \<and> map size_name (sortSize entry False)
       = map size_name (concat (rev (size_groups (sortSize entry True))))
   \<and> (\<forall>g \<in> set (size_groups (sortSize entry True)) \<union> set (size_groups (sortSize entry False)).
         (\<forall>e \<in> set g. Size e = Size (hd g)) \<and> sorted (map FullName g))"
proof -
  let ?asc = "sortSize entry True" and ?desc = "sortSize entry False"
  have a: "sort_Slice_result (sortSize_less True) entry ?asc"
    by (rule sortSize_meets_contract)
  have d: "sort_Slice_result (sortSize_less False) entry ?desc"
    by (rule sortSize_meets_contract)
  have asc: "mset ?asc = mset entry" "sorted (map size_name ?asc)"
    using a by (simp_all add: sort_Slice_result_key [of _ size_name] sortSize_less_ascending)
  have desc: "mset ?desc = mset entry" "sorted (map neg_size_name ?desc)"
    using d by (simp_all add: sort_Slice_result_key [of _ neg_size_name] sortSize_less_descending)
  note sorted_size_name_Size [OF asc(2)] sorted_neg_size_name_Size [OF desc(2)]
  with asc(1) desc(1) sort_Slice_result_reversal [OF a d] show ?thesis
    by blast
qed

theorem sortSize_reversal_witness:
  "sortSize [\<lparr>FullName = ''b'', Size = 10, ModTime = 0, FileType = ''F''\<rparr>,
             \<lparr>FullName = ''a'', Size = 10, ModTime = 0, FileType = ''F''\<rparr>,
             \<lparr>FullName = ''c'', Size = 5, ModTime = 0, FileType = ''F''\<rparr>] True
     = [\<lparr>FullName = ''c'', Size = 5, ModTime = 0, FileType = ''F''\<rparr>,
        \<lparr>FullName = ''a'', Size = 10, ModTime = 0, FileType = ''F''\<rparr>,
        \<lparr>FullName = ''b'', Size = 10, ModTime = 0, FileType = ''F''\<rparr>]
   \<and> sortSize [\<lparr>FullName = ''b'', Size = 10, ModTime = 0, FileType = ''F''\<rparr>,
               \<lparr>FullName = ''a'', Size = 10, ModTime = 0, FileType = ''F''\<rparr>,
               \<lparr>FullName = ''c'', Size = 5, ModTime = 0, FileType = ''F''\<rparr>] False
     = [\<lparr>FullName = ''a'', Size = 10, ModTime = 0, FileType = ''F''\<rparr>,
        \<lparr>FullName = ''b'', Size = 10, ModTime = 0, FileType = ''F''\<rparr>,
        \<lparr>FullName = ''c'', Size = 5, ModTime = 0, FileType = ''F''\<rparr>]
   \<and> size_groups [\<lparr>FullName = ''c'', Size = 5, ModTime = 0, FileType = ''F''\<rparr>,
                   \<lparr>FullName = ''a'', Size = 10, ModTime = 0, FileType = ''F''\<rparr>,
                   \<lparr>FullName = ''b'', Size = 10, ModTime = 0, FileType = ''F''\<rparr>]
     = [[\<lparr>FullName = ''c'', Size = 5, ModTime = 0, FileType = ''F''\<rparr>],
        [\<lparr>FullName = ''a'', Size = 10, ModTime = 0, FileType = ''F''\<rparr>,
         \<lparr>FullName = ''b'', Size = 10, ModTime = 0, FileType = ''F''\<rparr>]]
   \<and> map size_name
       [\<lparr>FullName = ''a'', Size = 10, ModTime = 0, FileType = ''F''\<rparr>,
        \<lparr>FullName = ''b'', Size = 10, ModTime = 0, FileType = ''F''\<rparr>,
        \<lparr>FullName = ''c'', Size = 5, ModTime = 0, FileType = ''F''\<rparr>]
     = map size_name (concat (rev (size_groups
       [\<lparr>FullName = ''c'', Size = 5, ModTime = 0, FileType = ''F''\<rparr>,
        \<lparr>FullName = ''a'', Size = 10, ModTime = 0, FileType = ''F''\<rparr>,
        \<lparr>FullName = ''b'', Size = 10, ModTime = 0, FileType = ''F''\<rparr>])))
   \<and> sorted (map FullName
       [\<lparr>FullName = ''a'', Size = 10, ModTime = 0, FileType = ''F''\<rparr>,
        \<lparr>FullName = ''b'', Size = 10, ModTime = 0, FileType = ''F''\<rparr>])"
proof -
  let ?a = "\<lparr>FullName = ''a'', Size = 10, ModTime = 0, FileType = ''F''\<rparr>"
  let ?b = "\<lparr>FullName = ''b'', Size = 10, ModTime = 0, FileType = ''F''\<rparr>"
  let ?c = "\<lparr>FullName = ''c'', Size = 5, ModTime = 0, FileType = ''F''\<rparr>"
  have asc: "sortSize [?b, ?a, ?c] True = [?c, ?a, ?b]"
    by (simp add: sortSize_def sort_Slice_def sortSize_less_def)
  have desc: "sortSize [?b, ?a, ?c] False = [?a, ?b, ?c]"
    by (simp add: sortSize_def sort_Slice_def sortSize_less_def)
  have grp: "size_groups [?c, ?a, ?b] = [[?c], [?a, ?b]]"
    by simp
  have mem: "[?a, ?b] \<in> set (size_groups [?c, ?a, ?b])"
    by (simp only: grp) simp
  note r = sortSize_reversal [of "[?b, ?a, ?c]", unfolded asc desc]
  from r have "map size_name [?a, ?b, ?c]
      = map size_name (concat (rev (size_groups [?c, ?a, ?b])))"
    by blast
  moreover from r mem have "sorted (map FullName [?a, ?b])"
    by blast
  ultimately show ?thesis
    using asc desc grp by blast
qed

section \<open>Properties of the date and size filters\<close>

text \<open>
  Claim C1. With the older bound 20190325, an entry modified at 2019-03-25 23:59:59 passes
  and an entry modified at 2019-03-26 00:00:01 is to be rejected. Where the local zone is
  UTC the code does not do so: the bound it computes is the last nanosecond of 2019-03-26,
  and both entries of the sample host (\<^verbatim>\<open>a.txt\<close>, modified at 23:59:59 on the 25th, and
  \<^verbatim>\<open>b.txt\<close>, modified at 00:00:01 on the 26th) are kept.
\<close>

theorem older_bound_in_UTC:
  "roundToLocalTime sample_host wantOlder ''20190325''
     = Inr (Date 2019 3 26 23 59 59 999999999 0)
   \<and> GetFileInfo sample_host [''a.txt'', ''b.txt''] False False [] [] [] ''20190325'' 0 0
     = ([], Inr [\<lparr>FullName = ''a.txt'', Size = 10,
                   ModTime = Date 2019 3 25 23 59 59 0 0, FileType = ''F''\<rparr>,
                 \<lparr>FullName = ''b.txt'', Size = 20,
                   ModTime = Date 2019 3 26 0 0 1 0 0, FileType = ''F''\<rparr>])"
  by code_simp

text \<open>
  Four hours west of UTC the bound is the last nanosecond of 2019-03-25 local time, the
  value that the comment of \<^verbatim>\<open>roundToLocalTime\<close> gives for this date, and there the entry
  of 00:00:01 on the 26th is rejected.
\<close>

lemma older_bound_west_of_UTC:
  "roundToLocalTime (sample_host\<lparr>time_Local := - 14400\<rparr>) wantOlder ''20190325''
     = Inr (Date 2019 3 25 23 59 59 999999999 (- 14400))
   \<and> GetFileInfo
       (sample_host\<lparr>time_Local := - 14400,
          os_Lstat := (\<lambda>name. Inr \<lparr>fi_Size = 1,
             fi_ModTime = (if name = ''early'' then Date 2019 3 25 23 59 59 0 (- 14400)
                           else Date 2019 3 26 0 0 1 0 (- 14400)),
             fi_IsRegular = True, fi_IsDir = False, fi_IsSymlink = False\<rparr>)\<rparr>)
       [''early'', ''late''] False False [] [] [] ''20190325'' 0 0
     = ([], Inr [\<lparr>FullName = ''early'', Size = 1,
                   ModTime = Date 2019 3 25 23 59 59 0 (- 14400), FileType = ''F''\<rparr>])"
  by code_simp

text \<open>
  The size checks, seen from the result: running with the bounds \<open>sizeSmaller\<close> and
  \<open>sizeLarger\<close> gives what running without bounds gives, after the entries the size
  checks reject are removed.
\<close>

lemma GetFileInfo_body_size:
  fixes keep :: "FileStat \<Rightarrow> bool"
  assumes keep: "\<And>e. keep e \<longleftrightarrow>
      \<not> (sizeSmaller > 0 \<and> Size e > sizeSmaller \<and> ''F'' = FileType e)
      \<and> \<not> (sizeLarger > 0 \<and> Size e < sizeLarger \<and> ''F'' = FileType e)"
  shows "GetFileInfo_body h quiet excludeDot excludeMatched includeMatched newerModTime
      olderModTime sizeSmaller sizeLarger fname (errs, filter keep acc)
    = (fst (GetFileInfo_body h quiet excludeDot excludeMatched includeMatched newerModTime
           olderModTime 0 0 fname (errs, acc)),
       filter keep (snd (GetFileInfo_body h quiet excludeDot excludeMatched includeMatched
           newerModTime olderModTime 0 0 fname (errs, acc))))"
proof (cases "os_Lstat h fname")
  case (Inl e)
  then show ?thesis
    by (simp add: GetFileInfo_body_def Let_def)
next
  case (Inr f)
  then show ?thesis
    by (simp add: GetFileInfo_body_def Let_def keep)
qed

lemma GetFileInfo_loop_size:
  fixes keep :: "FileStat \<Rightarrow> bool"
  assumes keep: "\<And>e. keep e \<longleftrightarrow>
      \<not> (sizeSmaller > 0 \<and> Size e > sizeSmaller \<and> ''F'' = FileType e)
      \<and> \<not> (sizeLarger > 0 \<and> Size e < sizeLarger \<and> ''F'' = FileType e)"
  shows "GetFileInfo_loop h quiet excludeDot excludeMatched includeMatched newerModTime
      olderModTime sizeSmaller sizeLarger names (errs, filter keep acc)
    = (fst (GetFileInfo_loop h quiet excludeDot excludeMatched includeMatched newerModTime
           olderModTime 0 0 names (errs, acc)),
       filter keep (snd (GetFileInfo_loop h quiet excludeDot excludeMatched includeMatched
           newerModTime olderModTime 0 0 names (errs, acc))))"
proof (induction names arbitrary: errs acc)
  case Nil
  show ?case by simp
next
  case (Cons fname rest)
  obtain errs' acc' where st: "GetFileInfo_body h quiet excludeDot excludeMatched includeMatched
      newerModTime olderModTime 0 0 fname (errs, acc) = (errs', acc')"
    by (cases "GetFileInfo_body h quiet excludeDot excludeMatched includeMatched
      newerModTime olderModTime 0 0 fname (errs, acc)")
  have "GetFileInfo_body h quiet excludeDot excludeMatched includeMatched newerModTime
      olderModTime sizeSmaller sizeLarger fname (errs, filter keep acc) = (errs', filter keep acc')"
    by (simp only: GetFileInfo_body_size [OF keep] st fst_conv snd_conv)
  then show ?case
    by (simp only: GetFileInfo_loop.simps st Cons.IH)
qed

text \<open>
  Claim C3. For every list of paths and every pair of size bounds, \<^verbatim>\<open>GetFileInfo\<close> with the
  bounds returns the entries it returns without bounds (both bounds 0), minus the entries
  of type F whose size exceeds a positive \<open>sizeSmaller\<close> or is below a positive
  \<open>sizeLarger\<close>. So an entry of type D, L or ? is never rejected by the size checks,
  whatever its size and the bounds, and a bound that is 0 rejects nothing. The text on
  standard error and a fatal exit are the same with and without bounds.
\<close>

theorem size_filter_files_only:
  "GetFileInfo h allFilenames quiet excludeDot excludeRE includeRE dateNewer dateOlder
     sizeSmaller sizeLarger
   = map_prod id (map_sum id
       (filter (\<lambda>e. FileType e \<noteq> ''F'' \<or> (\<not> (sizeSmaller > 0 \<and> Size e > sizeSmaller)
                                          \<and> \<not> (sizeLarger > 0 \<and> Size e < sizeLarger)))))
       (GetFileInfo h allFilenames quiet excludeDot excludeRE includeRE dateNewer dateOlder 0 0)"
proof -
  define keep :: "FileStat \<Rightarrow> bool"
    where "keep = (\<lambda>e. FileType e \<noteq> ''F'' \<or> (\<not> (sizeSmaller > 0 \<and> Size e > sizeSmaller)
                                          \<and> \<not> (sizeLarger > 0 \<and> Size e < sizeLarger)))"
  have keep: "keep e \<longleftrightarrow>
      \<not> (sizeSmaller > 0 \<and> Size e > sizeSmaller \<and> ''F'' = FileType e)
      \<and> \<not> (sizeLarger > 0 \<and> Size e < sizeLarger \<and> ''F'' = FileType e)" for e
    unfolding keep_def by auto
  have loop: "GetFileInfo_loop h quiet excludeDot ex inc nw ol sizeSmaller sizeLarger
       allFilenames ([], [])
     = map_prod id (filter keep)
         (GetFileInfo_loop h quiet excludeDot ex inc nw ol 0 0 allFilenames ([], []))"
    for ex inc nw ol
    using GetFileInfo_loop_size [of keep sizeSmaller sizeLarger h quiet excludeDot ex inc nw ol
        allFilenames "[]" "[]", OF keep]
    by (simp add: map_prod_def split_beta)
  show ?thesis
    unfolding GetFileInfo_def loop keep_def [symmetric]
    by (simp add: Let_def split: sum.splits prod.splits)
qed

theorem size_filter_files_only_witness:
  "GetFileInfo sample_host [''a.txt'', ''b.txt'', ''c.txt'', ''d1'', ''d2''] False False
     [] [] [] [] 15 25
   = map_prod id (map_sum id
       (filter (\<lambda>e. FileType e \<noteq> ''F'' \<or> (\<not> ((15 :: int) > 0 \<and> Size e > 15)
                                          \<and> \<not> ((25 :: int) > 0 \<and> Size e < 25)))))
       (GetFileInfo sample_host [''a.txt'', ''b.txt'', ''c.txt'', ''d1'', ''d2''] False
          False [] [] [] [] 0 0)
   \<and> GetFileInfo sample_host [''a.txt'', ''b.txt'', ''c.txt'', ''d1'', ''d2''] False False
       [] [] [] [] 15 0
     = ([], Inr [\<lparr>FullName = ''a.txt'', Size = 10,
                   ModTime = Date 2019 3 25 23 59 59 0 0, FileType = ''F''\<rparr>,
                 \<lparr>FullName = ''d1'', Size = 4096,
                   ModTime = Date 2019 3 24 8 30 0 0 0, FileType = ''D''\<rparr>,
                 \<lparr>FullName = ''d2'', Size = 4096,
                   ModTime = Date 2019 3 28 8 30 0 0 0, FileType = ''D''\<rparr>])"
proof -
  have "GetFileInfo sample_host [''a.txt'', ''b.txt'', ''c.txt'', ''d1'', ''d2''] False False
       [] [] [] [] 15 0
     = ([], Inr [\<lparr>FullName = ''a.txt'', Size = 10,
                   ModTime = Date 2019 3 25 23 59 59 0 0, FileType = ''F''\<rparr>,
                 \<lparr>FullName = ''d1'', Size = 4096,
                   ModTime = Date 2019 3 24 8 30 0 0 0, FileType = ''D''\<rparr>,
                 \<lparr>FullName = ''d2'', Size = 4096,
                   ModTime = Date 2019 3 28 8 30 0 0 0, FileType = ''D''\<rparr>])"
    by code_simp
  with size_filter_files_only [of sample_host "[''a.txt'', ''b.txt'', ''c.txt'', ''d1'', ''d2'']"
      False False "[]" "[]" "[]" "[]" 15 25]
  show ?thesis by (rule conjI)
qed

section \<open>Properties of the rows and the totals\<close>

lemma int64_absorb: "int64 (int64 a + b) = int64 (a + b)"
proof -
  have "int64 a + b + 2 ^ 63 = (a + 2 ^ 63) mod 2 ^ 64 + b"
    by (simp add: int64_def)
  then have "(int64 a + b + 2 ^ 63) mod 2 ^ 64 = (a + 2 ^ 63 + b) mod 2 ^ 64"
    by (simp only: mod_add_left_eq)
  moreover have "a + 2 ^ 63 + b = a + b + 2 ^ 63" by simp
  ultimately have "(int64 a + b + 2 ^ 63) mod 2 ^ 64 = (a + b + 2 ^ 63) mod 2 ^ 64"
    by (simp only:)
  then show ?thesis
    unfolding int64_def [of "int64 a + b"] int64_def [of "a + b"] by (simp only:)
qed

lemma int64_in_range: "- (2 ^ 63) \<le> n \<Longrightarrow> n < 2 ^ 63 \<Longrightarrow> int64 n = n"
  by (simp add: int64_def)

lemma float64_exact: "\<bar>n\<bar> < 2 ^ 53 \<Longrightarrow> float64 n = n"
proof -
  assume a: "\<bar>n\<bar> < 2 ^ 53"
  have "[0..<12] = 0 # [1..<12]" by (simp add: upt_rec)
  then have "takeWhile (\<lambda>k. (2 :: int) ^ 53 \<le> \<bar>n\<bar> div 2 ^ k) [0..<12] = []"
    using a by simp
  then show ?thesis
    by (simp add: float64_def Let_def mult_sgn_abs)
qed

lemma mebibytes_truncated:
  fixes n :: int
  shows "\<bar>n sdiv 1048576\<bar> * 1048576 \<le> \<bar>n\<bar> \<and> \<bar>n\<bar> < (\<bar>n sdiv 1048576\<bar> + 1) * 1048576"
proof -
  have q: "\<bar>n sdiv 1048576\<bar> = \<bar>n\<bar> div 1048576"
    by (cases "n = 0") (simp_all add: signed_divide_int_def abs_mult abs_sgn_eq)
  have "\<bar>n\<bar> div 1048576 * 1048576 \<le> \<bar>n\<bar>"
    by simp
  moreover have "\<bar>n\<bar> < (\<bar>n\<bar> div 1048576 + 1) * 1048576"
    using div_mult_mod_eq [of "\<bar>n\<bar>" 1048576] pos_mod_bound [of 1048576 "\<bar>n\<bar>"]
    by (simp add: algebra_simps)
  ultimately show ?thesis
    unfolding q by (rule conjI)
qed

text \<open>
  What the loop of \<^verbatim>\<open>RenderAllEntries\<close> returns: one row of four columns for each entry
  that is not passed over, and the counters. It returns whenever every time stamp is
  rendered in at least 23 characters, as \<^verbatim>\<open>Time.String\<close> does.
\<close>

lemma RenderAllEntries_loop_result:
  assumes "RenderAllEntries_loop h addCommas convertToMiB addMilliseconds includeTotals
             onlyFiles onlyDirs onlyLinks allEntries (rows0, tot0) = Some (allRows, tot)"
  shows "allRows = rows0 @ map (\<lambda>e. [the (render_modtime h addMilliseconds (ModTime e)),
                                      render_size h addCommas convertToMiB (Size e),
                                      FileType e, FullName e])
                             (filter (\<lambda>e. \<not> excluded onlyFiles onlyDirs onlyLinks e) allEntries)
       \<and> tot = (if includeTotals
                then foldl (\<lambda>t e. count_entry e t) tot0
                       (filter (\<lambda>e. \<not> excluded onlyFiles onlyDirs onlyLinks e) allEntries)
                else tot0)"
  using assms
proof (induction allEntries arbitrary: rows0 tot0)
  case Nil
  then show ?case by simp
next
  case (Cons e rest)
  show ?case
  proof (cases "excluded onlyFiles onlyDirs onlyLinks e")
    case True
    with Cons.prems have "RenderAllEntries_loop h addCommas convertToMiB addMilliseconds
        includeTotals onlyFiles onlyDirs onlyLinks rest (rows0, tot0) = Some (allRows, tot)"
      by simp
    from Cons.IH [OF this] True show ?thesis by simp
  next
    case False
    with Cons.prems obtain modtime where
      m: "render_modtime h addMilliseconds (ModTime e) = Some modtime" and
      r: "RenderAllEntries_loop h addCommas convertToMiB addMilliseconds
        includeTotals onlyFiles onlyDirs onlyLinks rest
        (rows0 @ [[modtime, render_size h addCommas convertToMiB (Size e), FileType e, FullName e]],
         if includeTotals then count_entry e tot0 else tot0) = Some (allRows, tot)"
      by (auto simp: Let_def split: option.splits)
    from Cons.IH [OF r] False m show ?thesis by simp
  qed
qed

lemma RenderAllEntries_loop_returns:
  assumes "\<forall>e \<in> set allEntries. render_modtime h addMilliseconds (ModTime e) \<noteq> None"
  shows "\<exists>r. RenderAllEntries_loop h addCommas convertToMiB addMilliseconds includeTotals
             onlyFiles onlyDirs onlyLinks allEntries st = Some r"
  using assms
proof (induction allEntries arbitrary: st)
  case Nil
  show ?case by simp
next
  case (Cons e rest)
  then show ?case
    by (cases st; cases "excluded onlyFiles onlyDirs onlyLinks e") (auto simp: Let_def)
qed

lemma render_modtime_returns:
  "23 \<le> length (time_String h t) \<Longrightarrow> render_modtime h addMilliseconds t \<noteq> None"
  by (simp add: render_modtime_def Let_def)

lemma count_entry_counts:
  "totalFileCount (count_entry e t) = totalFileCount t + (if FileType e = ''F'' then 1 else 0)"
  "totalDirCount (count_entry e t) = totalDirCount t + (if FileType e = ''D'' then 1 else 0)"
  "totalSymLinkCount (count_entry e t) = totalSymLinkCount t + (if FileType e = ''L'' then 1 else 0)"
  "totalFileSize (count_entry e t)
     = (if FileType e = ''F'' then int64 (totalFileSize t + Size e) else totalFileSize t)"
  by (auto simp: count_entry_def Let_def)

lemma foldl_count_entry_counts:
  "totalFileCount (foldl (\<lambda>t e. count_entry e t) t0 es)
     = totalFileCount t0 + int (length (filter (\<lambda>e. FileType e = ''F'') es))"
  "totalDirCount (foldl (\<lambda>t e. count_entry e t) t0 es)
     = totalDirCount t0 + int (length (filter (\<lambda>e. FileType e = ''D'') es))"
  "totalSymLinkCount (foldl (\<lambda>t e. count_entry e t) t0 es)
     = totalSymLinkCount t0 + int (length (filter (\<lambda>e. FileType e = ''L'') es))"
  by (induction es arbitrary: t0) (simp_all add: count_entry_counts)

lemma foldl_count_entry_size:
  "totalFileSize t0 = int64 x \<Longrightarrow>
   totalFileSize (foldl (\<lambda>t e. count_entry e t) t0 es)
     = int64 (x + sum_list (map Size (filter (\<lambda>e. FileType e = ''F'') es)))"
proof (induction es arbitrary: t0 x)
  case Nil
  then show ?case by simp
next
  case (Cons e es)
  show ?case
  proof (cases "FileType e = ''F''")
    case True
    have "totalFileSize (count_entry e t0) = int64 (x + Size e)"
      using True Cons.prems by (simp add: count_entry_counts int64_absorb)
    from Cons.IH [OF this] True show ?thesis by (simp add: add.assoc)
  next
    case False
    have "totalFileSize (count_entry e t0) = int64 x"
      using False Cons.prems by (simp add: count_entry_counts)
    from Cons.IH [OF this] False show ?thesis by simp
  qed
qed

lemma loop_totals:
  assumes "RenderAllEntries_loop h addCommas convertToMiB addMilliseconds True
             onlyFiles onlyDirs onlyLinks allEntries ([], no_totals) = Some (allRows, tot)"
  shows "tot = \<lparr>totalFileSize = int64 (sum_list (map Size (filter (\<lambda>e. FileType e = ''F'')
                    (filter (\<lambda>e. \<not> excluded onlyFiles onlyDirs onlyLinks e) allEntries)))),
               totalFileCount = int (length (filter (\<lambda>e. FileType e = ''F'')
                    (filter (\<lambda>e. \<not> excluded onlyFiles onlyDirs onlyLinks e) allEntries))),
               totalDirCount = int (length (filter (\<lambda>e. FileType e = ''D'')
                    (filter (\<lambda>e. \<not> excluded onlyFiles onlyDirs onlyLinks e) allEntries))),
               totalSymLinkCount = int (length (filter (\<lambda>e. FileType e = ''L'')
                    (filter (\<lambda>e. \<not> excluded onlyFiles onlyDirs onlyLinks e) allEntries)))\<rparr>"
proof -
  let ?listed = "filter (\<lambda>e. \<not> excluded onlyFiles onlyDirs onlyLinks e) allEntries"
  have tot: "tot = foldl (\<lambda>t e. count_entry e t) no_totals ?listed"
    using RenderAllEntries_loop_result [OF assms] by simp
  have "totalFileSize no_totals = int64 0"
    by (simp add: no_totals_def int64_def)
  from foldl_count_entry_size [OF this, of ?listed]
  have "totalFileSize tot = int64 (sum_list (map Size (filter (\<lambda>e. FileType e = ''F'') ?listed)))"
    by (simp add: tot)
  moreover have "totalFileCount tot = int (length (filter (\<lambda>e. FileType e = ''F'') ?listed))"
    "totalDirCount tot = int (length (filter (\<lambda>e. FileType e = ''D'') ?listed))"
    "totalSymLinkCount tot = int (length (filter (\<lambda>e. FileType e = ''L'') ?listed))"
    by (simp_all add: tot foldl_count_entry_counts no_totals_def)
  ultimately show ?thesis
    by (cases tot) simp
qed

lemma summary_rows_length: "row \<in> set (summary_rows h addCommas s) \<Longrightarrow> length row = 4"
  by (auto simp: summary_rows_def Let_def split: if_splits)

lemma summary_rows_first:
  "hd (summary_rows h addCommas s) ! 1
     = (if addCommas then RenderInteger h ''#,###.'' (sum_totalFileSize s)
        else fmt_d (sum_totalFileSize s))"
  by (simp add: summary_rows_def Let_def)

lemma summary_rows_nonempty: "summary_rows h addCommas s \<noteq> []"
  by (simp add: summary_rows_def Let_def)

lemma final_rows_result:
  assumes "final_rows h allEntries addCommas convertToMiB addMilliseconds includeTotals
             onlyFiles onlyDirs onlyLinks = Some rows"
  obtains allRows tot where
    "RenderAllEntries_loop h addCommas convertToMiB addMilliseconds includeTotals
       onlyFiles onlyDirs onlyLinks allEntries ([], no_totals) = Some (allRows, tot)"
    "rows = (if includeTotals then allRows @ summary_rows h addCommas (summarize convertToMiB tot)
             else allRows)"
  using assms by (auto simp: final_rows_def split: option.splits)

lemma final_rows_length:
  assumes "final_rows h allEntries addCommas convertToMiB addMilliseconds includeTotals
             onlyFiles onlyDirs onlyLinks = Some rows"
  shows "\<forall>row \<in> set rows. length row = 4"
proof -
  from assms obtain allRows tot where
    loop: "RenderAllEntries_loop h addCommas convertToMiB addMilliseconds includeTotals
       onlyFiles onlyDirs onlyLinks allEntries ([], no_totals) = Some (allRows, tot)" and
    rows: "rows = (if includeTotals
                   then allRows @ summary_rows h addCommas (summarize convertToMiB tot)
                   else allRows)"
    by (rule final_rows_result)
  have "\<forall>row \<in> set allRows. length row = 4"
    using RenderAllEntries_loop_result [OF loop] by auto
  then show ?thesis
    unfolding rows by (auto dest: summary_rows_length)
qed

lemma shortenFileName_loop_append:
  "shortenFileName_loop h maxWidth rows newRows
     = newRows @ map (\<lambda>row. row[3 := ellipsis_Shorten h (row ! 3) maxWidth]) rows"
  by (induction rows arbitrary: newRows) simp_all

lemma shortenFileName_eq:
  "shortenFileName h allRows maxWidth
     = replicate (length allRows) []
       @ map (\<lambda>row. row[3 := ellipsis_Shorten h (row ! 3) maxWidth]) allRows"
  by (simp add: shortenFileName_def shortenFileName_loop_append)

lemma filter_nil_rows:
  assumes "\<forall>row \<in> set allRows. length row = 4"
  shows "filter (\<lambda>row. row \<noteq> []) (replicate n [] @ map (\<lambda>row. row[3 := f row]) allRows)
         = map (\<lambda>row. row[3 := f row]) allRows"
proof -
  have "filter (\<lambda>row. row \<noteq> []) (map (\<lambda>row. row[3 := f row]) allRows)
      = map (\<lambda>row. row[3 := f row]) allRows"
    using assms by (induction allRows) auto
  then show ?thesis by simp
qed

text \<open>
  Claim C4. When totals are requested, the values computed after the loop are: the total
  size of the entries of type F (the \<^verbatim>\<open>int64\<close> sum, divided by 1048576 when mebibytes are
  asked for), the numbers of entries of type F, D and L, the average file size, which
  is the total size divided by the number of files with truncating integer division
  (converted to \<^verbatim>\<open>float64\<close>) and 0 when there is no file, and the average number of files
  for each directory, which is the number of files divided by the number of directories
  with truncating integer division and 0 when there is no directory. These values give
  the rows appended to the data rows. For three files of 10, 20 and 30 bytes and two
  directories they are 60, 3, 2, 20 and 1, as the instance after the theorem shows.
\<close>

theorem totals_computation:
  assumes "RenderAllEntries_loop h addCommas convertToMiB addMilliseconds True
             onlyFiles onlyDirs onlyLinks allEntries ([], no_totals) = Some (allRows, tot)"
  shows "let listed = filter (\<lambda>e. \<not> excluded onlyFiles onlyDirs onlyLinks e) allEntries;
             files = filter (\<lambda>e. FileType e = ''F'') listed;
             dirs = filter (\<lambda>e. FileType e = ''D'') listed;
             links = filter (\<lambda>e. FileType e = ''L'') listed;
             total = int64 (sum_list (map Size files));
             shown = (if convertToMiB then total sdiv 1048576 else total)
         in summarize convertToMiB tot =
              \<lparr>sum_totalFileSize = shown,
               sum_totalFileCount = int (length files),
               sum_totalDirCount = int (length dirs),
               sum_totalSymLinkCount = int (length links),
               averageFileSize =
                 (if files = [] then 0 else float64 (shown sdiv int (length files))),
               averageFilesPerDir =
                 (if dirs = [] then 0
                  else float64 (int (length files) sdiv int (length dirs)))\<rparr>
            \<and> final_rows h allEntries addCommas convertToMiB addMilliseconds True
                  onlyFiles onlyDirs onlyLinks
                = Some (allRows @ summary_rows h addCommas (summarize convertToMiB tot))"
proof -
  let ?listed = "filter (\<lambda>e. \<not> excluded onlyFiles onlyDirs onlyLinks e) allEntries"
  let ?files = "filter (\<lambda>e. FileType e = ''F'') ?listed"
  let ?dirs = "filter (\<lambda>e. FileType e = ''D'') ?listed"
  let ?links = "filter (\<lambda>e. FileType e = ''L'') ?listed"
  let ?total = "int64 (sum_list (map Size ?files))"
  let ?shown = "if convertToMiB then ?total sdiv 1048576 else ?total"
  have f0: "float64 0 = 0" by (simp add: float64_exact)
  have sd0: "(0 :: int) sdiv n = 0" for n by (simp add: signed_divide_int_def)
  have tot: "tot = \<lparr>totalFileSize = ?total, totalFileCount = int (length ?files),
      totalDirCount = int (length ?dirs), totalSymLinkCount = int (length ?links)\<rparr>"
    by (rule loop_totals [OF assms])
  have "sum_totalFileSize (summarize convertToMiB tot) = ?shown"
    and "sum_totalFileCount (summarize convertToMiB tot) = int (length ?files)"
    and "sum_totalDirCount (summarize convertToMiB tot) = int (length ?dirs)"
    and "sum_totalSymLinkCount (summarize convertToMiB tot) = int (length ?links)"
    and "averageFileSize (summarize convertToMiB tot)
           = (if ?files = [] then 0 else float64 (?shown sdiv int (length ?files)))"
    and "averageFilesPerDir (summarize convertToMiB tot)
           = (if ?dirs = [] then 0 else float64 (int (length ?files) sdiv int (length ?dirs)))"
    unfolding tot by (simp_all add: summarize_def Let_def f0 sd0)
  then have "summarize convertToMiB tot =
      \<lparr>sum_totalFileSize = ?shown,
       sum_totalFileCount = int (length ?files),
       sum_totalDirCount = int (length ?dirs),
       sum_totalSymLinkCount = int (length ?links),
       averageFileSize = (if ?files = [] then 0 else float64 (?shown sdiv int (length ?files))),
       averageFilesPerDir =
         (if ?dirs = [] then 0 else float64 (int (length ?files) sdiv int (length ?dirs)))\<rparr>"
    by (cases "summarize convertToMiB tot") simp
  moreover have "final_rows h allEntries addCommas convertToMiB addMilliseconds True
      onlyFiles onlyDirs onlyLinks
    = Some (allRows @ summary_rows h addCommas (summarize convertToMiB tot))"
    by (simp add: final_rows_def assms)
  ultimately show ?thesis
    unfolding Let_def by (rule conjI)
qed

theorem totals_computation_witness:
  "RenderAllEntries_loop sample_host False False False True False False False
     [\<lparr>FullName = ''f1'', Size = 10, ModTime = 0, FileType = ''F''\<rparr>,
      \<lparr>FullName = ''d1'', Size = 4096, ModTime = 0, FileType = ''D''\<rparr>,
      \<lparr>FullName = ''f2'', Size = 20, ModTime = 0, FileType = ''F''\<rparr>,
      \<lparr>FullName = ''f3'', Size = 30, ModTime = 0, FileType = ''F''\<rparr>,
      \<lparr>FullName = ''d2'', Size = 4096, ModTime = 0, FileType = ''D''\<rparr>]
     ([], no_totals)
   = Some ([[''1970-01-01 00:00:00'', ''10'', ''F'', ''f1''],
            [''1970-01-01 00:00:00'', ''4096'', ''D'', ''d1''],
            [''1970-01-01 00:00:00'', ''20'', ''F'', ''f2''],
            [''1970-01-01 00:00:00'', ''30'', ''F'', ''f3''],
            [''1970-01-01 00:00:00'', ''4096'', ''D'', ''d2'']],
           \<lparr>totalFileSize = 60, totalFileCount = 3, totalDirCount = 2,
              totalSymLinkCount = 0\<rparr>)
   \<and> summarize False
       \<lparr>totalFileSize = 60, totalFileCount = 3, totalDirCount = 2, totalSymLinkCount = 0\<rparr>
     = \<lparr>sum_totalFileSize = 60, sum_totalFileCount = 3, sum_totalDirCount = 2,
        sum_totalSymLinkCount = 0, averageFileSize = 20, averageFilesPerDir = 1\<rparr>"
proof -
  have loop: "RenderAllEntries_loop sample_host False False False True False False False
     [\<lparr>FullName = ''f1'', Size = 10, ModTime = 0, FileType = ''F''\<rparr>,
      \<lparr>FullName = ''d1'', Size = 4096, ModTime = 0, FileType = ''D''\<rparr>,
      \<lparr>FullName = ''f2'', Size = 20, ModTime = 0, FileType = ''F''\<rparr>,
      \<lparr>FullName = ''f3'', Size = 30, ModTime = 0, FileType = ''F''\<rparr>,
      \<lparr>FullName = ''d2'', Size = 4096, ModTime = 0, FileType = ''D''\<rparr>]
     ([], no_totals)
   = Some ([[''1970-01-01 00:00:00'', ''10'', ''F'', ''f1''],
            [''1970-01-01 00:00:00'', ''4096'', ''D'', ''d1''],
            [''1970-01-01 00:00:00'', ''20'', ''F'', ''f2''],
            [''1970-01-01 00:00:00'', ''30'', ''F'', ''f3''],
            [''1970-01-01 00:00:00'', ''4096'', ''D'', ''d2'']],
           \<lparr>totalFileSize = 60, totalFileCount = 3, totalDirCount = 2,
              totalSymLinkCount = 0\<rparr>)"
    by code_simp
  have "summarize False
       \<lparr>totalFileSize = 60, totalFileCount = 3, totalDirCount = 2, totalSymLinkCount = 0\<rparr>
     = \<lparr>sum_totalFileSize = 60, sum_totalFileCount = 3, sum_totalDirCount = 2,
        sum_totalSymLinkCount = 0, averageFileSize = 20, averageFilesPerDir = 1\<rparr>"
    using totals_computation [OF loop]
    by (simp add: Let_def excluded_def int64_in_range float64_exact signed_divide_int_def)
  with loop show ?thesis by (rule conjI)
qed

text \<open>
  Claim C9. When mebibytes are asked for, the size column of each data row is the size in
  bytes divided by 1048576, and the size column of the row of the total is the sum of the
  file sizes divided by 1048576; the division comes first and the quotient is then
  rendered, by \<^verbatim>\<open>RenderInteger\<close> when separators are asked for and as a plain decimal
  otherwise. The division truncates: the quotient times 1048576 is the largest multiple
  of 1048576 that does not exceed the size in absolute value.
\<close>

theorem mebibyte_sizes:
  assumes "final_rows h allEntries addCommas True addMilliseconds includeTotals
             onlyFiles onlyDirs onlyLinks = Some rows"
  shows "let listed = filter (\<lambda>e. \<not> excluded onlyFiles onlyDirs onlyLinks e) allEntries;
             render = (if addCommas then RenderInteger h ''#,###.'' else fmt_d)
         in map (\<lambda>row. row ! 1) (take (length listed) rows)
              = map (\<lambda>e. render (Size e sdiv 1048576)) listed
            \<and> (includeTotals \<longrightarrow>
                 rows ! length listed ! 1
                   = render (int64 (sum_list (map Size (filter (\<lambda>e. FileType e = ''F'') listed)))
                             sdiv 1048576))
            \<and> (\<forall>e \<in> set listed.
                  \<bar>Size e sdiv 1048576\<bar> * 1048576 \<le> \<bar>Size e\<bar>
                  \<and> \<bar>Size e\<bar> < (\<bar>Size e sdiv 1048576\<bar> + 1) * 1048576)"
proof -
  let ?listed = "filter (\<lambda>e. \<not> excluded onlyFiles onlyDirs onlyLinks e) allEntries"
  from assms obtain allRows tot where
    loop: "RenderAllEntries_loop h addCommas True addMilliseconds includeTotals
       onlyFiles onlyDirs onlyLinks allEntries ([], no_totals) = Some (allRows, tot)" and
    rows: "rows = (if includeTotals
                   then allRows @ summary_rows h addCommas (summarize True tot)
                   else allRows)"
    by (rule final_rows_result)
  have allRows: "allRows = map (\<lambda>e. [the (render_modtime h addMilliseconds (ModTime e)),
                                      render_size h addCommas True (Size e),
                                      FileType e, FullName e]) ?listed"
    using RenderAllEntries_loop_result [OF loop] by simp
  then have len: "length allRows = length ?listed" by simp
  have "take (length ?listed) rows = allRows"
    unfolding rows using len by simp
  then have a: "map (\<lambda>row. row ! 1) (take (length ?listed) rows)
      = map (\<lambda>e. (if addCommas then RenderInteger h ''#,###.'' else fmt_d)
                    (Size e sdiv 1048576)) ?listed"
    by (simp add: allRows render_size_def)
  have b: "rows ! length ?listed ! 1
      = (if addCommas then RenderInteger h ''#,###.'' else fmt_d)
          (int64 (sum_list (map Size (filter (\<lambda>e. FileType e = ''F'') ?listed))) sdiv 1048576)"
    if t: includeTotals
  proof -
    from loop t have loop': "RenderAllEntries_loop h addCommas True addMilliseconds True
       onlyFiles onlyDirs onlyLinks allEntries ([], no_totals) = Some (allRows, tot)"
      by simp
    have r: "rows ! length ?listed = hd (summary_rows h addCommas (summarize True tot))"
      unfolding rows using t len summary_rows_nonempty [of h addCommas "summarize True tot"]
      by (simp add: nth_append hd_conv_nth)
    have s: "sum_totalFileSize (summarize True tot)
        = int64 (sum_list (map Size (filter (\<lambda>e. FileType e = ''F'') ?listed))) sdiv 1048576"
      by (simp add: summarize_def Let_def loop_totals [OF loop'])
    show ?thesis
      unfolding r summary_rows_first s by simp
  qed
  have c: "\<forall>e \<in> set ?listed.
      \<bar>Size e sdiv 1048576\<bar> * 1048576 \<le> \<bar>Size e\<bar>
      \<and> \<bar>Size e\<bar> < (\<bar>Size e sdiv 1048576\<bar> + 1) * 1048576"
    using mebibytes_truncated by blast
  from a b c show ?thesis
    unfolding Let_def by blast
qed

theorem mebibyte_sizes_witness:
  "final_rows sample_host
     [\<lparr>FullName = ''x'', Size = 1048575, ModTime = 0, FileType = ''F''\<rparr>,
      \<lparr>FullName = ''y'', Size = 2097151, ModTime = 0, FileType = ''F''\<rparr>,
      \<lparr>FullName = ''z'', Size = 3145728, ModTime = 0, FileType = ''D''\<rparr>]
     False True False True False False False
   = Some [[''1970-01-01 00:00:00'', ''0'', ''F'', ''x''],
           [''1970-01-01 00:00:00'', ''1'', ''F'', ''y''],
           [''1970-01-01 00:00:00'', ''3'', ''D'', ''z''],
           [[], ''2'', '' '', ''  (total size for 2 files)''],
           [[], ''1'', '' '', ''(average size for 2 files)''],
           [[], ''1'', '' '', ''(num of directories)''],
           [[], ''2'', '' '', ''(average num of files per directory)'']]
   \<and> [''0'', ''1'', ''3''] = map (\<lambda>n. fmt_d (n sdiv 1048576)) [1048575, 2097151, 3145728]
   \<and> ''2'' = fmt_d (int64 (1048575 + 2097151) sdiv 1048576)"
proof -
  have rows: "final_rows sample_host
     [\<lparr>FullName = ''x'', Size = 1048575, ModTime = 0, FileType = ''F''\<rparr>,
      \<lparr>FullName = ''y'', Size = 2097151, ModTime = 0, FileType = ''F''\<rparr>,
      \<lparr>FullName = ''z'', Size = 3145728, ModTime = 0, FileType = ''D''\<rparr>]
     False True False True False False False
   = Some [[''1970-01-01 00:00:00'', ''0'', ''F'', ''x''],
           [''1970-01-01 00:00:00'', ''1'', ''F'', ''y''],
           [''1970-01-01 00:00:00'', ''3'', ''D'', ''z''],
           [[], ''2'', '' '', ''  (total size for 2 files)''],
           [[], ''1'', '' '', ''(average size for 2 files)''],
           [[], ''1'', '' '', ''(num of directories)''],
           [[], ''2'', '' '', ''(average num of files per directory)'']]"
    by code_simp
  have "[''0'', ''1'', ''3''] = map (\<lambda>n. fmt_d (n sdiv 1048576)) [1048575, 2097151, 3145728]
      \<and> ''2'' = fmt_d (int64 (1048575 + 2097151) sdiv 1048576)"
    using mebibyte_sizes [OF rows]
    by (simp add: Let_def excluded_def)
  with rows show ?thesis by (rule conjI)
qed

section \<open>Properties of the output formats\<close>

text \<open>
  Claim C5, as amended. If the final row sequence is empty, the default format writes
  nothing, CSV writes its header line and HTML writes its document with the header cells
  and no body row. JSON writes the document \<^verbatim>\<open>null\<close>: \<^verbatim>\<open>allRows\<close> is then a nil slice, and it is
  encoded as \<^verbatim>\<open>null\<close> and not as an array without elements.
\<close>

theorem empty_rows_output:
  assumes "final_rows h allEntries addCommas convertToMiB addMilliseconds includeTotals
             onlyFiles onlyDirs onlyLinks = Some []"
  shows "RenderAllEntries h allEntries addCommas convertToMiB addMilliseconds includeTotals
           onlyFiles onlyDirs onlyLinks False False False longFileNames longWidth
         = ([], Returned)
       \<and> RenderAllEntries h allEntries addCommas convertToMiB addMilliseconds includeTotals
           onlyFiles onlyDirs onlyLinks True outputHTML outputJSON longFileNames longWidth
         = (dquote @ ''Mod Time'' @ dquote @ '','' @ dquote @ ''Size'' @ dquote @ '',''
              @ dquote @ ''Type'' @ dquote @ '','' @ dquote @ ''Name'' @ dquote @ newline,
            Returned)
       \<and> RenderAllEntries h allEntries addCommas convertToMiB addMilliseconds includeTotals
           onlyFiles onlyDirs onlyLinks False True outputJSON longFileNames longWidth
         = (''<!DOCTYPE html>'' @ newline @ ''<html>'' @ newline @ ''<body>'' @ newline
              @ ''<table border='1' cellpadding='3' cellspacing='3'>'' @ newline
              @ ''<th>Mod Time</th><th>Size</th><th>Type</th><th>Name</th>'' @ newline
              @ ''</table>'' @ newline @ ''</body>'' @ newline @ ''</html>'' @ newline,
            Returned)
       \<and> RenderAllEntries h allEntries addCommas convertToMiB addMilliseconds includeTotals
           onlyFiles onlyDirs onlyLinks False False True longFileNames longWidth
         = (''null'' @ newline, Returned)"
  by (simp add: RenderAllEntries_def assms render_output_def output_CSV_def csv_line_def
      header_def output_HTML_def output_JSON_def json_MarshalIndent_def)

theorem empty_rows_output_witness:
  "final_rows sample_host
     [\<lparr>FullName = ''x'', Size = 1048575, ModTime = 0, FileType = ''F''\<rparr>,
      \<lparr>FullName = ''z'', Size = 3145728, ModTime = 0, FileType = ''D''\<rparr>]
     False False False False False False True = Some []
   \<and> RenderAllEntries sample_host
       [\<lparr>FullName = ''x'', Size = 1048575, ModTime = 0, FileType = ''F''\<rparr>,
        \<lparr>FullName = ''z'', Size = 3145728, ModTime = 0, FileType = ''D''\<rparr>]
       False False False False False False True False False False False 0
     = ([], Returned)
   \<and> RenderAllEntries sample_host
       [\<lparr>FullName = ''x'', Size = 1048575, ModTime = 0, FileType = ''F''\<rparr>,
        \<lparr>FullName = ''z'', Size = 3145728, ModTime = 0, FileType = ''D''\<rparr>]
       False False False False False False True False False True False 0
     = (''null'' @ newline, Returned)
   \<and> RenderAllEntries sample_host
       [\<lparr>FullName = ''x'', Size = 1048575, ModTime = 0, FileType = ''F''\<rparr>,
        \<lparr>FullName = ''z'', Size = 3145728, ModTime = 0, FileType = ''D''\<rparr>]
       False False False False False False True True False False False 0
     = (dquote @ ''Mod Time'' @ dquote @ '','' @ dquote @ ''Size'' @ dquote @ '',''
          @ dquote @ ''Type'' @ dquote @ '','' @ dquote @ ''Name'' @ dquote @ newline,
        Returned)
   \<and> RenderAllEntries sample_host
       [\<lparr>FullName = ''x'', Size = 1048575, ModTime = 0, FileType = ''F''\<rparr>,
        \<lparr>FullName = ''z'', Size = 3145728, ModTime = 0, FileType = ''D''\<rparr>]
       False False False False False False True False True False False 0
     = (''<!DOCTYPE html>'' @ newline @ ''<html>'' @ newline @ ''<body>'' @ newline
          @ ''<table border='1' cellpadding='3' cellspacing='3'>'' @ newline
          @ ''<th>Mod Time</th><th>Size</th><th>Type</th><th>Name</th>'' @ newline
          @ ''</table>'' @ newline @ ''</body>'' @ newline @ ''</html>'' @ newline,
        Returned)"
proof -
  have rows: "final_rows sample_host
     [\<lparr>FullName = ''x'', Size = 1048575, ModTime = 0, FileType = ''F''\<rparr>,
      \<lparr>FullName = ''z'', Size = 3145728, ModTime = 0, FileType = ''D''\<rparr>]
     False False False False False False True = Some []"
    by code_simp
  from empty_rows_output [OF rows, of False 0 False False] rows show ?thesis
    by blast
qed

text \<open>
  The claim as stated fails for JSON: with no row, the output is neither a header nor the
  frame of an array. With \<^verbatim>\<open>-oj -dn 20200101\<close> on the sample host, whose entries are all
  older, no entry is kept and the output is \<^verbatim>\<open>null\<close>.
\<close>

theorem empty_rows_json_null:
  "final_rows sample_host [] False False False False False False False = Some []
   \<and> RenderAllEntries sample_host [] False False False False False False False
       False False True False 0
     = (''null'' @ newline, Returned)
   \<and> stdout (main sample_host (no_flags\<lparr>flag_oj := True, flag_dn := ''20200101''\<rparr>))
     = ''null'' @ newline
   \<and> stdout (main sample_host (no_flags\<lparr>flag_oj := True, flag_dn := ''20200101''\<rparr>))
     \<noteq> ''[]'' @ newline
   \<and> ended (main sample_host (no_flags\<lparr>flag_oj := True, flag_dn := ''20200101''\<rparr>)) = Exit 0"
  by code_simp

text \<open>
  Claim C6, as amended. For every entry sequence that yields at least one row, each of
  whose first columns parses as a time, the JSON output is an indented array with one
  element for each row, and each element is the array of the four display strings of the
  row (modification time, size, type, name as rendered), each encoded as a JSON string;
  the typed \<^verbatim>\<open>FileStat\<close> values are not what is encoded. Without totals the rows are
  exactly the rendered columns of the entries that are not passed over.
\<close>

theorem json_output_rows:
  assumes "final_rows h allEntries addCommas convertToMiB addMilliseconds includeTotals
             onlyFiles onlyDirs onlyLinks = Some rows"
      and "rows \<noteq> []"
      and "json_check_rows h rows = None"
  shows "RenderAllEntries h allEntries addCommas convertToMiB addMilliseconds includeTotals
           onlyFiles onlyDirs onlyLinks False False True longFileNames longWidth
         = (''['' @ newline
              @ strings_Join
                  (map (\<lambda>row. ''    ['' @ newline
                                @ strings_Join (map (\<lambda>c. ''        '' @ json_String h c) row)
                                    ('','' @ newline)
                                @ newline @ ''    ]'') rows)
                  ('','' @ newline)
              @ newline @ '']'' @ newline,
            Returned)
       \<and> (\<forall>row \<in> set rows. length row = 4)
       \<and> (\<not> includeTotals \<longrightarrow>
            rows = map (\<lambda>e. [the (render_modtime h addMilliseconds (ModTime e)),
                             render_size h addCommas convertToMiB (Size e),
                             FileType e, FullName e])
                       (filter (\<lambda>e. \<not> excluded onlyFiles onlyDirs onlyLinks e) allEntries))"
proof -
  have len: "\<forall>row \<in> set rows. length row = 4"
    using assms(1) by (rule final_rows_length)
  then have "map (\<lambda>row. ''    '' @ json_row h row) rows
      = map (\<lambda>row. ''    ['' @ newline
                    @ strings_Join (map (\<lambda>c. ''        '' @ json_String h c) row)
                        ('','' @ newline)
                    @ newline @ ''    ]'') rows"
    by (intro map_cong refl) (auto simp: json_row_def)
  then have out: "RenderAllEntries h allEntries addCommas convertToMiB addMilliseconds
      includeTotals onlyFiles onlyDirs onlyLinks False False True longFileNames longWidth
    = (''['' @ newline
         @ strings_Join
             (map (\<lambda>row. ''    ['' @ newline
                           @ strings_Join (map (\<lambda>c. ''        '' @ json_String h c) row)
                               ('','' @ newline)
                           @ newline @ ''    ]'') rows)
             ('','' @ newline)
         @ newline @ '']'' @ newline,
       Returned)"
    using assms
    by (simp add: RenderAllEntries_def render_output_def output_JSON_def json_MarshalIndent_def
        del: map_eq_conv)
  have "rows = map (\<lambda>e. [the (render_modtime h addMilliseconds (ModTime e)),
                             render_size h addCommas convertToMiB (Size e),
                             FileType e, FullName e])
                       (filter (\<lambda>e. \<not> excluded onlyFiles onlyDirs onlyLinks e) allEntries)"
    if "\<not> includeTotals"
  proof -
    from assms(1) obtain allRows tot where
      loop: "RenderAllEntries_loop h addCommas convertToMiB addMilliseconds includeTotals
         onlyFiles onlyDirs onlyLinks allEntries ([], no_totals) = Some (allRows, tot)" and
      rows: "rows = (if includeTotals
                     then allRows @ summary_rows h addCommas (summarize convertToMiB tot)
                     else allRows)"
      by (rule final_rows_result)
    from RenderAllEntries_loop_result [OF loop] rows that show ?thesis by simp
  qed
  with out len show ?thesis by blast
qed

theorem json_output_rows_witness:
  "final_rows sample_host [\<lparr>FullName = ''x'', Size = 10, ModTime = 0, FileType = ''F''\<rparr>]
     False False False False False False False
   = Some [[''1970-01-01 00:00:00'', ''10'', ''F'', ''x'']]
   \<and> json_check_rows sample_host [[''1970-01-01 00:00:00'', ''10'', ''F'', ''x'']] = None
   \<and> RenderAllEntries sample_host
       [\<lparr>FullName = ''x'', Size = 10, ModTime = 0, FileType = ''F''\<rparr>]
       False False False False False False False False False True False 0
     = (''['' @ newline
          @ ''    ['' @ newline
          @ ''        '' @ dquote @ ''1970-01-01 00:00:00'' @ dquote @ '','' @ newline
          @ ''        '' @ dquote @ ''10'' @ dquote @ '','' @ newline
          @ ''        '' @ dquote @ ''F'' @ dquote @ '','' @ newline
          @ ''        '' @ dquote @ ''x'' @ dquote @ newline
          @ ''    ]'' @ newline
          @ '']'' @ newline, Returned)"
proof -
  have rows: "final_rows sample_host
     [\<lparr>FullName = ''x'', Size = 10, ModTime = 0, FileType = ''F''\<rparr>]
     False False False False False False False
   = Some [[''1970-01-01 00:00:00'', ''10'', ''F'', ''x'']]"
    by code_simp
  have ne: "[[''1970-01-01 00:00:00'', ''10'', ''F'', ''x'']] \<noteq> []"
    by simp
  have chk: "json_check_rows sample_host [[''1970-01-01 00:00:00'', ''10'', ''F'', ''x'']]
      = None"
    by code_simp
  have "RenderAllEntries sample_host
       [\<lparr>FullName = ''x'', Size = 10, ModTime = 0, FileType = ''F''\<rparr>]
       False False False False False False False False False True False 0
     = (''['' @ newline
          @ ''    ['' @ newline
          @ ''        '' @ dquote @ ''1970-01-01 00:00:00'' @ dquote @ '','' @ newline
          @ ''        '' @ dquote @ ''10'' @ dquote @ '','' @ newline
          @ ''        '' @ dquote @ ''F'' @ dquote @ '','' @ newline
          @ ''        '' @ dquote @ ''x'' @ dquote @ newline
          @ ''    ]'' @ newline
          @ '']'' @ newline, Returned)"
    using json_output_rows [OF rows ne chk, of False 0]
    by (simp add: sample_host_def)
  with rows chk show ?thesis by blast
qed

text \<open>
  The claim as stated, for every entry sequence, fails where no row is produced: with
  \<^verbatim>\<open>-oj -il\<close> on the sample host, which has no symbolic link, the output is \<^verbatim>\<open>null\<close> and
  not an array.
\<close>

theorem json_output_null:
  "stdout (main sample_host (no_flags\<lparr>flag_oj := True, flag_il := True\<rparr>)) = ''null'' @ newline
   \<and> ended (main sample_host (no_flags\<lparr>flag_oj := True, flag_il := True\<rparr>)) = Exit 0"
  by code_simp

text \<open>
  Claim C10, as amended. For every non-empty final row sequence in the default format,
  \<^verbatim>\<open>shortenFileName\<close> returns twice as many rows as it is given: first one nil row for each
  row, then the rows with their last column shortened. This doubled sequence is what the
  table writer is given. What is printed for the nil rows is decided by the table writer:
  one that prints nothing for a row without cells, as \<^verbatim>\<open>tablewriter\<close> does, prints the table of
  the shortened rows alone.
\<close>

theorem shortenFileName_doubles:
  assumes "final_rows h allEntries addCommas convertToMiB addMilliseconds includeTotals
             onlyFiles onlyDirs onlyLinks = Some allRows"
      and "allRows \<noteq> []"
  shows "shortenFileName h allRows maxWidth
           = replicate (length allRows) []
             @ map (\<lambda>row. row[3 := ellipsis_Shorten h (row ! 3) maxWidth]) allRows
       \<and> length (shortenFileName h allRows maxWidth) = 2 * length allRows
       \<and> (\<forall>row \<in> set allRows. length row = 4)
       \<and> RenderAllEntries h allEntries addCommas convertToMiB addMilliseconds includeTotals
           onlyFiles onlyDirs onlyLinks False False False longFileNames longWidth
         = (tablewriter_Render h header
              (replicate (length allRows) []
               @ map (\<lambda>row. row[3 := ellipsis_Shorten h (row ! 3)
                                        (table_maxWidth h longFileNames longWidth)]) allRows),
            Returned)
       \<and> ((\<forall>rows. tablewriter_Render h header rows
                    = tablewriter_Render h header (filter (\<lambda>row. row \<noteq> []) rows)) \<longrightarrow>
          RenderAllEntries h allEntries addCommas convertToMiB addMilliseconds includeTotals
            onlyFiles onlyDirs onlyLinks False False False longFileNames longWidth
          = (tablewriter_Render h header
               (map (\<lambda>row. row[3 := ellipsis_Shorten h (row ! 3)
                                        (table_maxWidth h longFileNames longWidth)]) allRows),
             Returned))"
proof -
  let ?w = "table_maxWidth h longFileNames longWidth"
  let ?short = "map (\<lambda>row. row[3 := ellipsis_Shorten h (row ! 3) ?w]) allRows"
  have len: "\<forall>row \<in> set allRows. length row = 4"
    using assms(1) by (rule final_rows_length)
  have out: "RenderAllEntries h allEntries addCommas convertToMiB addMilliseconds
      includeTotals onlyFiles onlyDirs onlyLinks False False False longFileNames longWidth
    = (tablewriter_Render h header (replicate (length allRows) [] @ ?short), Returned)"
    using assms
    by (simp add: RenderAllEntries_def render_output_def table_rows_def shortenFileName_eq)
  have "RenderAllEntries h allEntries addCommas convertToMiB addMilliseconds
      includeTotals onlyFiles onlyDirs onlyLinks False False False longFileNames longWidth
    = (tablewriter_Render h header ?short, Returned)"
    if skip: "\<forall>rows. tablewriter_Render h header rows
                = tablewriter_Render h header (filter (\<lambda>row. row \<noteq> []) rows)"
  proof -
    have "tablewriter_Render h header (replicate (length allRows) [] @ ?short)
        = tablewriter_Render h header
            (filter (\<lambda>row. row \<noteq> []) (replicate (length allRows) [] @ ?short))"
      using skip by blast
    also have "\<dots> = tablewriter_Render h header ?short"
      by (simp only: filter_nil_rows [OF len])
    finally show ?thesis
      by (simp only: out)
  qed
  with len out show ?thesis
    by (simp add: shortenFileName_eq)
qed

theorem shortenFileName_doubles_witness:
  "final_rows sample_host [\<lparr>FullName = ''x'', Size = 10, ModTime = 0, FileType = ''F''\<rparr>]
     False False False False False False False
   = Some [[''1970-01-01 00:00:00'', ''10'', ''F'', ''x'']]
   \<and> shortenFileName sample_host [[''1970-01-01 00:00:00'', ''10'', ''F'', ''x'']] 49
     = [[], [''1970-01-01 00:00:00'', ''10'', ''F'', ''x'']]
   \<and> length (shortenFileName sample_host
               [[''1970-01-01 00:00:00'', ''10'', ''F'', ''x'']] 49) = 2
   \<and> (\<forall>rows. tablewriter_Render sample_host header rows
               = tablewriter_Render sample_host header (filter (\<lambda>row. row \<noteq> []) rows))
   \<and> RenderAllEntries sample_host
       [\<lparr>FullName = ''x'', Size = 10, ModTime = 0, FileType = ''F''\<rparr>]
       False False False False False False False False False False False 0
     = (tablewriter_Render sample_host header [[''1970-01-01 00:00:00'', ''10'', ''F'', ''x'']],
        Returned)"
proof -
  have rows: "final_rows sample_host
     [\<lparr>FullName = ''x'', Size = 10, ModTime = 0, FileType = ''F''\<rparr>]
     False False False False False False False
   = Some [[''1970-01-01 00:00:00'', ''10'', ''F'', ''x'']]"
    by code_simp
  have ne: "[[''1970-01-01 00:00:00'', ''10'', ''F'', ''x'']] \<noteq> []"
    by simp
  have skip: "\<forall>rows. tablewriter_Render sample_host header rows
               = tablewriter_Render sample_host header (filter (\<lambda>row. row \<noteq> []) rows)"
    by (simp add: sample_host_def sample_tablewriter_Render_def)
  have short: "map (\<lambda>row. row[3 := ellipsis_Shorten sample_host (row ! 3)
                                     (table_maxWidth sample_host False 0)])
                 [[''1970-01-01 00:00:00'', ''10'', ''F'', ''x'']]
      = [[''1970-01-01 00:00:00'', ''10'', ''F'', ''x'']]"
    by (simp add: table_maxWidth_def sample_host_def minTermWidth_def)
  note t = shortenFileName_doubles [OF rows ne, of 49 False 0]
  have "shortenFileName sample_host [[''1970-01-01 00:00:00'', ''10'', ''F'', ''x'']] 49
     = [[], [''1970-01-01 00:00:00'', ''10'', ''F'', ''x'']]
   \<and> length (shortenFileName sample_host
               [[''1970-01-01 00:00:00'', ''10'', ''F'', ''x'']] 49) = 2"
    using t by (simp add: sample_host_def)
  moreover from t skip have "RenderAllEntries sample_host
       [\<lparr>FullName = ''x'', Size = 10, ModTime = 0, FileType = ''F''\<rparr>]
       False False False False False False False False False False False 0
     = (tablewriter_Render sample_host header
          (map (\<lambda>row. row[3 := ellipsis_Shorten sample_host (row ! 3)
                                   (table_maxWidth sample_host False 0)])
             [[''1970-01-01 00:00:00'', ''10'', ''F'', ''x'']]),
        Returned)"
    by blast
  then have "RenderAllEntries sample_host
       [\<lparr>FullName = ''x'', Size = 10, ModTime = 0, FileType = ''F''\<rparr>]
       False False False False False False False False False False False 0
     = (tablewriter_Render sample_host header [[''1970-01-01 00:00:00'', ''10'', ''F'', ''x'']],
        Returned)"
    by (simp only: short)
  ultimately show ?thesis
    using rows skip by blast
qed

text \<open>
  The claim as stated has the rendered table show one empty row for each data row before
  the data rows. On the sample host, \<^verbatim>\<open>-f a.txt\<close> hands the table writer a nil row and the row
  of \<^verbatim>\<open>a.txt\<close>, and what is printed is the header and the row of \<^verbatim>\<open>a.txt\<close>, with no empty
  row between them.
\<close>

theorem rendered_table_no_empty_row:
  "table_rows sample_host [[''2019-03-25 23:59:59'', ''10'', ''F'', ''a.txt'']] False 0
     = [[], [''2019-03-25 23:59:59'', ''10'', ''F'', ''a.txt'']]
   \<and> stdout (main sample_host (no_flags\<lparr>flag_f := ''a.txt''\<rparr>))
     = ''Mod Time | Size | Type | Name'' @ newline
       @ ''2019-03-25 23:59:59 | 10 | F | a.txt'' @ newline
   \<and> stdout (main sample_host (no_flags\<lparr>flag_f := ''a.txt''\<rparr>))
     \<noteq> ''Mod Time | Size | Type | Name'' @ newline
       @ newline
       @ ''2019-03-25 23:59:59 | 10 | F | a.txt'' @ newline"
  by code_simp

section \<open>Properties of the command line checks\<close>

lemma ValidateArgs_Some:
  "ValidateArgs a1 a2 a3 a4 a5 a6 a7 a8 a9 a10 a11 a12 a13 a14 a15 dateOlder dateNewer
     sizeSmaller sizeLarger longFileNames longWidth = Some (msg, code) \<Longrightarrow>
   code = 2 \<and> msg \<noteq> []"
  by (auto simp: ValidateArgs_def split: if_splits)

lemma ValidateArgs_None:
  "ValidateArgs a1 a2 a3 a4 a5 a6 a7 a8 a9 a10 a11 a12 a13 a14 a15 dateOlder dateNewer
     sizeSmaller sizeLarger longFileNames longWidth = None \<longleftrightarrow>
   \<not> count_set [a1, a2, a3, a4, a5, a6, a7, a8] > 1
   \<and> \<not> count_set [a9, a10, a11] > 1
   \<and> \<not> count_set [a13, a14, a15] > 1
   \<and> \<not> (a12 \<and> (a13 \<or> a14 \<or> a15))
   \<and> \<not> (dateOlder \<noteq> [] \<and> dateNewer \<noteq> []
        \<and> (time_Parse_dateFormat dateOlder = None \<or> time_Parse_dateFormat dateNewer = None
           \<or> the (time_Parse_dateFormat dateOlder) > the (time_Parse_dateFormat dateNewer)))
   \<and> \<not> (sizeSmaller > 0 \<and> sizeSmaller < sizeLarger)
   \<and> \<not> (longFileNames \<and> longWidth > 0)"
  by (auto simp: ValidateArgs_def)

lemma main_validation_error:
  assumes "\<not> flag_v cl" "main_ValidateArgs cl \<noteq> None"
  shows "stdout (main h cl) = [] \<and> stderr (main h cl) \<noteq> [] \<and> ended (main h cl) = Exit 2"
proof -
  from assms(2) obtain msg code where v: "main_ValidateArgs cl = Some (msg, code)"
    by auto
  then have "code = 2 \<and> msg \<noteq> []"
    unfolding main_ValidateArgs_def by (rule ValidateArgs_Some)
  with v assms(1) show ?thesis
    by (simp add: main_def)
qed

lemma get_allFilenames_none:
  assumes "(flag_f cl \<noteq> [] \<and> snd (glob_all h (strings_Fields h (flag_f cl)) ([], [])) = [])
         \<or> (flag_f cl = [] \<and> flag_Args cl = [] \<and> os_Stdin h = [])
         \<or> (flag_f cl = [] \<and> flag_Args cl \<noteq> [] \<and> os_Open h (hd (flag_Args cl)) = Inr [])"
  shows "\<exists>errs. get_allFilenames h cl = (errs, Inl 3) \<and> errs \<noteq> []"
  using assms
  by (auto simp: get_allFilenames_def Let_def split_beta)

lemma main_no_names:
  assumes "\<not> flag_v cl" "main_ValidateArgs cl = None"
    and "get_allFilenames h cl = (errs, Inl code)" 
  shows "main h cl = \<lparr>stdout = [], stderr = errs, ended = Exit code\<rparr>"
  using assms by (simp add: main_def)

lemma GetFileInfo_bad_exclude:
  assumes "excludeRE \<noteq> []" "regexp_Compile h excludeRE = None"
  shows "\<exists>errs. GetFileInfo h names quiet excludeDot excludeRE includeRE dateNewer dateOlder
           sizeSmaller sizeLarger = (errs, Inl 3) \<and> errs \<noteq> []"
  using assms by (simp add: GetFileInfo_def)

lemma GetFileInfo_bad_include:
  assumes "\<not> (excludeRE \<noteq> [] \<and> regexp_Compile h excludeRE = None)"
    and "includeRE \<noteq> []" "regexp_Compile h includeRE = None"
  shows "\<exists>errs. GetFileInfo h names quiet excludeDot excludeRE includeRE dateNewer dateOlder
           sizeSmaller sizeLarger = (errs, Inl 4) \<and> errs \<noteq> []"
  using assms by (auto simp: GetFileInfo_def)

lemma roundToLocalTime_bad_date:
  "time_Parse_dateFormat d = None \<Longrightarrow>
   \<exists>msg. roundToLocalTime h olderOrNewer d = Inl (msg, 5) \<and> msg \<noteq> []"
  by (simp add: roundToLocalTime_def)

lemma roundToLocalTime_good_date:
  "time_Parse_dateFormat d \<noteq> None \<Longrightarrow> \<exists>t. roundToLocalTime h olderOrNewer d = Inr t"
  by (auto simp: roundToLocalTime_def Let_def split_beta)

lemma GetFileInfo_bad_date:
  assumes "\<not> (excludeRE \<noteq> [] \<and> regexp_Compile h excludeRE = None)"
    and "\<not> (includeRE \<noteq> [] \<and> regexp_Compile h includeRE = None)"
    and "(dateNewer \<noteq> [] \<and> time_Parse_dateFormat dateNewer = None)
       \<or> (dateOlder \<noteq> [] \<and> time_Parse_dateFormat dateOlder = None)"
  shows "\<exists>errs. GetFileInfo h names quiet excludeDot excludeRE includeRE dateNewer dateOlder
           sizeSmaller sizeLarger = (errs, Inl 5) \<and> errs \<noteq> []"
proof (cases "dateNewer \<noteq> [] \<and> time_Parse_dateFormat dateNewer = None")
  case True
  then obtain msg where "roundToLocalTime h wantNewer dateNewer = Inl (msg, 5)" "msg \<noteq> []"
    using roundToLocalTime_bad_date by blast
  with True assms(1,2) show ?thesis
    by (auto simp: GetFileInfo_def)
next
  case False
  with assms(3) have older: "dateOlder \<noteq> []" "time_Parse_dateFormat dateOlder = None"
    by auto
  then obtain msg where m: "roundToLocalTime h wantOlder dateOlder = Inl (msg, 5)" "msg \<noteq> []"
    using roundToLocalTime_bad_date by blast
  have "\<exists>nw. (if length dateNewer > 0
               then map_sum id Some (roundToLocalTime h wantNewer dateNewer)
               else Inr None) = Inr nw"
    using False roundToLocalTime_good_date [of dateNewer h wantNewer] by auto
  then obtain nw where nw: "(if length dateNewer > 0
               then map_sum id Some (roundToLocalTime h wantNewer dateNewer)
               else Inr None) = Inr nw" ..
  show ?thesis
    unfolding GetFileInfo_def nw using assms(1,2) older m
    by auto
qed

lemma main_GetFileInfo_error:
  assumes "\<not> flag_v cl" "main_ValidateArgs cl = None"
    and "get_allFilenames h cl = (errs1, Inr names)"
    and "GetFileInfo h names (flag_q cl) (flag_ed cl) (flag_er cl) (flag_ir cl) (flag_dn cl)
           (flag_do cl) (flag_szs cl) (flag_szl cl) = (errs2, Inl code)"
  shows "main h cl = \<lparr>stdout = [], stderr = errs1 @ errs2, ended = Exit code\<rparr>"
  using assms by (simp add: main_def)

text \<open>
  Claim C7. For every invocation in which more than one sort flag is set, or totals are
  combined with CSV, HTML or JSON output, or \<^verbatim>\<open>-long\<close> is combined with a positive
  \<^verbatim>\<open>-longwidth\<close>, the process ends with a non-zero exit status and nothing is written to
  standard output. The status is 2, the status of \<^verbatim>\<open>ValidateArgs\<close>; when \<^verbatim>\<open>-v\<close> is also
  given the process ends before the check, with status 1.
\<close>

theorem conflicting_flags_fatal:
  assumes "count_set [flag_ss cl, flag_sS cl, flag_sd cl, flag_sD cl, flag_sn cl, flag_sN cl,
                      flag_si cl, flag_sI cl] > 1
         \<or> (flag_t cl \<and> (flag_oc cl \<or> flag_oh cl \<or> flag_oj cl))
         \<or> (flag_long cl \<and> flag_longwidth cl > 0)"
  shows "stdout (main h cl) = [] \<and> ended (main h cl) = Exit (if flag_v cl then 1 else 2)"
proof (cases "flag_v cl")
  case True
  then show ?thesis by (simp add: main_def)
next
  case False
  from assms have "main_ValidateArgs cl \<noteq> None"
    unfolding main_ValidateArgs_def ValidateArgs_None by blast
  from main_validation_error [OF False this] False show ?thesis by simp
qed

theorem conflicting_flags_fatal_witness:
  "count_set [flag_ss (no_flags\<lparr>flag_ss := True, flag_sd := True\<rparr>),
              flag_sS (no_flags\<lparr>flag_ss := True, flag_sd := True\<rparr>),
              flag_sd (no_flags\<lparr>flag_ss := True, flag_sd := True\<rparr>),
              flag_sD (no_flags\<lparr>flag_ss := True, flag_sd := True\<rparr>),
              flag_sn (no_flags\<lparr>flag_ss := True, flag_sd := True\<rparr>),
              flag_sN (no_flags\<lparr>flag_ss := True, flag_sd := True\<rparr>),
              flag_si (no_flags\<lparr>flag_ss := True, flag_sd := True\<rparr>),
              flag_sI (no_flags\<lparr>flag_ss := True, flag_sd := True\<rparr>)] > 1
   \<and> stdout (main sample_host (no_flags\<lparr>flag_ss := True, flag_sd := True\<rparr>)) = []
   \<and> ended (main sample_host (no_flags\<lparr>flag_ss := True, flag_sd := True\<rparr>)) = Exit 2
   \<and> stdout (main sample_host (no_flags\<lparr>flag_t := True, flag_oj := True\<rparr>)) = []
   \<and> ended (main sample_host (no_flags\<lparr>flag_t := True, flag_oj := True\<rparr>)) = Exit 2
   \<and> stdout (main sample_host (no_flags\<lparr>flag_long := True, flag_longwidth := 120\<rparr>)) = []
   \<and> ended (main sample_host (no_flags\<lparr>flag_long := True, flag_longwidth := 120\<rparr>)) = Exit 2"
  using conflicting_flags_fatal [of "no_flags\<lparr>flag_ss := True, flag_sd := True\<rparr>" sample_host]
    conflicting_flags_fatal [of "no_flags\<lparr>flag_t := True, flag_oj := True\<rparr>" sample_host]
    conflicting_flags_fatal [of "no_flags\<lparr>flag_long := True, flag_longwidth := 120\<rparr>" sample_host]
  by (simp add: no_flags_def count_set_def)

text \<open>
  Claim C8, as amended. Without \<^verbatim>\<open>-v\<close>, each configuration error is fatal, is reported on
  standard error and leaves standard output empty, with these exit statuses: 2 for every
  error \<^verbatim>\<open>ValidateArgs\<close> detects (conflicting flags, a positive \<^verbatim>\<open>-szs\<close> below \<^verbatim>\<open>-szl\<close>, and,
  when both dates are given, a date that does not parse or a \<^verbatim>\<open>-dn\<close> date after the
  \<^verbatim>\<open>-do\<close> date); 3 for an empty list of file names and for patterns that match nothing;
  3 for an exclude expression that does not compile; 4 for an include expression that
  does not compile; 5 for a date that does not parse. The statuses are not distinct for
  each condition.
\<close>

theorem configuration_errors_fatal:
  assumes "\<not> flag_v cl"
  shows "(count_set [flag_ss cl, flag_sS cl, flag_sd cl, flag_sD cl, flag_sn cl, flag_sN cl,
                     flag_si cl, flag_sI cl] > 1
          \<or> count_set [flag_if cl, flag_id cl, flag_il cl] > 1
          \<or> count_set [flag_oc cl, flag_oh cl, flag_oj cl] > 1
          \<or> (flag_t cl \<and> (flag_oc cl \<or> flag_oh cl \<or> flag_oj cl))
          \<or> (flag_long cl \<and> flag_longwidth cl > 0)
          \<or> (flag_szs cl > 0 \<and> flag_szs cl < flag_szl cl)
          \<or> (flag_dn cl \<noteq> [] \<and> flag_do cl \<noteq> []
              \<and> (time_Parse_dateFormat (flag_dn cl) = None
                 \<or> time_Parse_dateFormat (flag_do cl) = None
                 \<or> the (time_Parse_dateFormat (flag_dn cl))
                      > the (time_Parse_dateFormat (flag_do cl))))
          \<longrightarrow> stdout (main h cl) = [] \<and> stderr (main h cl) \<noteq> []
              \<and> ended (main h cl) = Exit 2)
       \<and> (main_ValidateArgs cl = None
          \<and> ((flag_f cl \<noteq> [] \<and> snd (glob_all h (strings_Fields h (flag_f cl)) ([], [])) = [])
             \<or> (flag_f cl = [] \<and> flag_Args cl = [] \<and> os_Stdin h = [])
             \<or> (flag_f cl = [] \<and> flag_Args cl \<noteq> [] \<and> os_Open h (hd (flag_Args cl)) = Inr []))
          \<longrightarrow> stdout (main h cl) = [] \<and> stderr (main h cl) \<noteq> []
              \<and> ended (main h cl) = Exit 3)
       \<and> (main_ValidateArgs cl = None \<and> get_allFilenames h cl = (errs, Inr names)
          \<and> flag_er cl \<noteq> [] \<and> regexp_Compile h (flag_er cl) = None
          \<longrightarrow> stdout (main h cl) = [] \<and> stderr (main h cl) \<noteq> []
              \<and> ended (main h cl) = Exit 3)
       \<and> (main_ValidateArgs cl = None \<and> get_allFilenames h cl = (errs, Inr names)
          \<and> \<not> (flag_er cl \<noteq> [] \<and> regexp_Compile h (flag_er cl) = None)
          \<and> flag_ir cl \<noteq> [] \<and> regexp_Compile h (flag_ir cl) = None
          \<longrightarrow> stdout (main h cl) = [] \<and> stderr (main h cl) \<noteq> []
              \<and> ended (main h cl) = Exit 4)
       \<and> (main_ValidateArgs cl = None \<and> get_allFilenames h cl = (errs, Inr names)
          \<and> \<not> (flag_er cl \<noteq> [] \<and> regexp_Compile h (flag_er cl) = None)
          \<and> \<not> (flag_ir cl \<noteq> [] \<and> regexp_Compile h (flag_ir cl) = None)
          \<and> ((flag_dn cl \<noteq> [] \<and> time_Parse_dateFormat (flag_dn cl) = None)
             \<or> (flag_do cl \<noteq> [] \<and> time_Parse_dateFormat (flag_do cl) = None))
          \<longrightarrow> stdout (main h cl) = [] \<and> stderr (main h cl) \<noteq> []
              \<and> ended (main h cl) = Exit 5)"
proof (intro conjI impI)
  assume "count_set [flag_ss cl, flag_sS cl, flag_sd cl, flag_sD cl, flag_sn cl, flag_sN cl,
                     flag_si cl, flag_sI cl] > 1
          \<or> count_set [flag_if cl, flag_id cl, flag_il cl] > 1
          \<or> count_set [flag_oc cl, flag_oh cl, flag_oj cl] > 1
          \<or> (flag_t cl \<and> (flag_oc cl \<or> flag_oh cl \<or> flag_oj cl))
          \<or> (flag_long cl \<and> flag_longwidth cl > 0)
          \<or> (flag_szs cl > 0 \<and> flag_szs cl < flag_szl cl)
          \<or> (flag_dn cl \<noteq> [] \<and> flag_do cl \<noteq> []
              \<and> (time_Parse_dateFormat (flag_dn cl) = None
                 \<or> time_Parse_dateFormat (flag_do cl) = None
                 \<or> the (time_Parse_dateFormat (flag_dn cl))
                      > the (time_Parse_dateFormat (flag_do cl))))"
  then have "main_ValidateArgs cl \<noteq> None"
    unfolding main_ValidateArgs_def ValidateArgs_None by blast
  from main_validation_error [OF assms this]
  show "stdout (main h cl) = []" "stderr (main h cl) \<noteq> []" "ended (main h cl) = Exit 2"
    by simp_all
next
  assume a: "main_ValidateArgs cl = None
          \<and> ((flag_f cl \<noteq> [] \<and> snd (glob_all h (strings_Fields h (flag_f cl)) ([], [])) = [])
             \<or> (flag_f cl = [] \<and> flag_Args cl = [] \<and> os_Stdin h = [])
             \<or> (flag_f cl = [] \<and> flag_Args cl \<noteq> [] \<and> os_Open h (hd (flag_Args cl)) = Inr []))"
  then obtain e where "get_allFilenames h cl = (e, Inl 3)" "e \<noteq> []"
    using get_allFilenames_none [of cl h] by blast
  with main_no_names [OF assms, of h e 3] a
  show "stdout (main h cl) = []" "stderr (main h cl) \<noteq> []" "ended (main h cl) = Exit 3"
    by simp_all
next
  assume a: "main_ValidateArgs cl = None \<and> get_allFilenames h cl = (errs, Inr names)
          \<and> flag_er cl \<noteq> [] \<and> regexp_Compile h (flag_er cl) = None"
  then obtain e where "GetFileInfo h names (flag_q cl) (flag_ed cl) (flag_er cl) (flag_ir cl)
      (flag_dn cl) (flag_do cl) (flag_szs cl) (flag_szl cl) = (e, Inl 3)" "e \<noteq> []"
    using GetFileInfo_bad_exclude [of "flag_er cl" h] by blast
  with main_GetFileInfo_error [OF assms, of h errs names e 3] a
  show "stdout (main h cl) = []" "stderr (main h cl) \<noteq> []" "ended (main h cl) = Exit 3"
    by simp_all
next
  assume a: "main_ValidateArgs cl = None \<and> get_allFilenames h cl = (errs, Inr names)
          \<and> \<not> (flag_er cl \<noteq> [] \<and> regexp_Compile h (flag_er cl) = None)
          \<and> flag_ir cl \<noteq> [] \<and> regexp_Compile h (flag_ir cl) = None"
  then obtain e where "GetFileInfo h names (flag_q cl) (flag_ed cl) (flag_er cl) (flag_ir cl)
      (flag_dn cl) (flag_do cl) (flag_szs cl) (flag_szl cl) = (e, Inl 4)" "e \<noteq> []"
    using GetFileInfo_bad_include [of "flag_er cl" h "flag_ir cl"] by blast
  with main_GetFileInfo_error [OF assms, of h errs names e 4] a
  show "stdout (main h cl) = []" "stderr (main h cl) \<noteq> []" "ended (main h cl) = Exit 4"
    by simp_all
next
  assume a: "main_ValidateArgs cl = None \<and> get_allFilenames h cl = (errs, Inr names)
          \<and> \<not> (flag_er cl \<noteq> [] \<and> regexp_Compile h (flag_er cl) = None)
          \<and> \<not> (flag_ir cl \<noteq> [] \<and> regexp_Compile h (flag_ir cl) = None)
          \<and> ((flag_dn cl \<noteq> [] \<and> time_Parse_dateFormat (flag_dn cl) = None)
             \<or> (flag_do cl \<noteq> [] \<and> time_Parse_dateFormat (flag_do cl) = None))"
  then obtain e where "GetFileInfo h names (flag_q cl) (flag_ed cl) (flag_er cl) (flag_ir cl)
      (flag_dn cl) (flag_do cl) (flag_szs cl) (flag_szl cl) = (e, Inl 5)" "e \<noteq> []"
    using GetFileInfo_bad_date [of "flag_er cl" h "flag_ir cl" "flag_dn cl" "flag_do cl"]
    by blast
  with main_GetFileInfo_error [OF assms, of h errs names e 5] a
  show "stdout (main h cl) = []" "stderr (main h cl) \<noteq> []" "ended (main h cl) = Exit 5"
    by simp_all
qed

theorem configuration_errors_fatal_witness:
  "\<not> flag_v (no_flags\<lparr>flag_szs := 5, flag_szl := 10\<rparr>)
   \<and> ended (main sample_host (no_flags\<lparr>flag_szs := 5, flag_szl := 10\<rparr>)) = Exit 2
   \<and> ended (main sample_host (no_flags\<lparr>flag_f := ''zzz''\<rparr>)) = Exit 3
   \<and> ended (main sample_host (no_flags\<lparr>flag_er := ''(''\<rparr>)) = Exit 3
   \<and> ended (main sample_host (no_flags\<lparr>flag_ir := ''(''\<rparr>)) = Exit 4
   \<and> ended (main sample_host (no_flags\<lparr>flag_do := ''2019''\<rparr>)) = Exit 5"
proof -
  have v: "\<not> flag_v (no_flags\<lparr>flag_szs := 5, flag_szl := 10\<rparr>)"
    "\<not> flag_v (no_flags\<lparr>flag_f := ''zzz''\<rparr>)"
    "\<not> flag_v (no_flags\<lparr>flag_er := ''(''\<rparr>)"
    "\<not> flag_v (no_flags\<lparr>flag_ir := ''(''\<rparr>)"
    "\<not> flag_v (no_flags\<lparr>flag_do := ''2019''\<rparr>)"
    by (simp_all add: no_flags_def)
  have ok: "main_ValidateArgs (no_flags\<lparr>flag_f := ''zzz''\<rparr>) = None"
    "main_ValidateArgs (no_flags\<lparr>flag_er := ''(''\<rparr>) = None"
    "main_ValidateArgs (no_flags\<lparr>flag_ir := ''(''\<rparr>) = None"
    "main_ValidateArgs (no_flags\<lparr>flag_do := ''2019''\<rparr>) = None"
    by code_simp+
  have names: "get_allFilenames sample_host (no_flags\<lparr>flag_er := ''(''\<rparr>)
        = ([], Inr [''a.txt'', ''b.txt'', ''c.txt'', ''d1'', ''d2''])"
    "get_allFilenames sample_host (no_flags\<lparr>flag_ir := ''(''\<rparr>)
        = ([], Inr [''a.txt'', ''b.txt'', ''c.txt'', ''d1'', ''d2''])"
    "get_allFilenames sample_host (no_flags\<lparr>flag_do := ''2019''\<rparr>)
        = ([], Inr [''a.txt'', ''b.txt'', ''c.txt'', ''d1'', ''d2''])"
    by code_simp+
  have glob: "snd (glob_all sample_host
      (strings_Fields sample_host (flag_f (no_flags\<lparr>flag_f := ''zzz''\<rparr>))) ([], [])) = []"
    by code_simp
  have bad: "regexp_Compile sample_host ''('' = None" "time_Parse_dateFormat ''2019'' = None"
    by code_simp+
  have "ended (main sample_host (no_flags\<lparr>flag_szs := 5, flag_szl := 10\<rparr>)) = Exit 2"
    using configuration_errors_fatal [OF v(1), of sample_host]
    by (simp add: no_flags_def)
  moreover have "ended (main sample_host (no_flags\<lparr>flag_f := ''zzz''\<rparr>)) = Exit 3"
    using configuration_errors_fatal [OF v(2), of sample_host] ok(1) glob
    by (simp add: no_flags_def)
  moreover have "ended (main sample_host (no_flags\<lparr>flag_er := ''(''\<rparr>)) = Exit 3"
    using configuration_errors_fatal [OF v(3), of sample_host "[]"
        "[''a.txt'', ''b.txt'', ''c.txt'', ''d1'', ''d2'']"] ok(2) names(1) bad
    by (simp add: no_flags_def)
  moreover have "ended (main sample_host (no_flags\<lparr>flag_ir := ''(''\<rparr>)) = Exit 4"
    using configuration_errors_fatal [OF v(4), of sample_host "[]"
        "[''a.txt'', ''b.txt'', ''c.txt'', ''d1'', ''d2'']"] ok(3) names(2) bad
    by (simp add: no_flags_def)
  moreover have "ended (main sample_host (no_flags\<lparr>flag_do := ''2019''\<rparr>)) = Exit 5"
    using configuration_errors_fatal [OF v(5), of sample_host "[]"
        "[''a.txt'', ''b.txt'', ''c.txt'', ''d1'', ''d2'']"] ok(4) names(3) bad
    by (simp add: no_flags_def)
  ultimately show ?thesis using v(1) by blast
qed

text \<open>
  The claim as stated asks for a distinct exit status for each condition. Two sort flags
  and an inverted size range both end with status 2, and an exclude expression that does
  not compile and patterns that match nothing both end with status 3.
\<close>

theorem exit_status_not_distinct:
  "ended (main sample_host (no_flags\<lparr>flag_ss := True, flag_sd := True\<rparr>)) = Exit 2
   \<and> ended (main sample_host (no_flags\<lparr>flag_szs := 5, flag_szl := 10\<rparr>)) = Exit 2
   \<and> ended (main sample_host (no_flags\<lparr>flag_er := ''(''\<rparr>)) = Exit 3
   \<and> ended (main sample_host (no_flags\<lparr>flag_f := ''zzz''\<rparr>)) = Exit 3"
  by code_simp

end
